theory Spec2Isabelle
  imports Main "HOL-Library.Sublist"
begin

section \<open>StatEnv worker (src/index.js): the embedding\<close>

subsection \<open>Rate limiter\<close>

text \<open>
  \<^verbatim>\<open>RATE_LIMIT = { maxRequests: 100, windowMs: 60000, perIP: true, perApp: false }\<close>.
  Times are the integer milliseconds of \<^verbatim>\<open>Date.now()\<close>; counts and times are
  JavaScript numbers far inside the exactly represented integers, modelled as \<open>int\<close>.
\<close>

definition maxRequests :: int where
  "maxRequests = 100"

definition windowMs :: int where
  "windowMs = 60000"

definition perIP :: bool where
  "perIP = True"

text \<open>An entry of \<^verbatim>\<open>rateLimitStore\<close>, and the object \<^verbatim>\<open>checkRateLimit\<close> returns.\<close>

record rl_entry =
  count :: int
  resetAt :: int

record rl_result =
  allowed :: bool
  remaining :: int
  res_resetAt :: int

text \<open>\<^verbatim>\<open>rateLimitStore\<close>: a \<^verbatim>\<open>Map\<close> from identifier to entry.\<close>

type_synonym rl_store = "string \<Rightarrow> rl_entry option"

text \<open>
  The clean-up loop of \<^verbatim>\<open>checkRateLimit\<close>: every entry with \<^verbatim>\<open>now > v.resetAt\<close> is
  deleted (deleting from a \<^verbatim>\<open>Map\<close> while iterating over it still visits every entry).
\<close>

definition cleanup :: "int \<Rightarrow> rl_store \<Rightarrow> rl_store" where
  "cleanup now s =
     (\<lambda>k. case s k of
            None \<Rightarrow> None
          | Some v \<Rightarrow> if now > resetAt v then None else Some v)"

text \<open>
  \<^verbatim>\<open>checkRateLimit(identifier)\<close>. The two things the function reads from its environment
  are arguments: \<open>rnd\<close> is the outcome of \<^verbatim>\<open>Math.random() < 0.01\<close>, \<open>now\<close> the value of
  \<^verbatim>\<open>Date.now()\<close>. The store is passed in and returned.
\<close>

definition checkRateLimit :: "bool \<Rightarrow> int \<Rightarrow> string \<Rightarrow> rl_store \<Rightarrow> rl_result \<times> rl_store" where
  "checkRateLimit rnd now key s0 =
     (let s = (if rnd then cleanup now s0 else s0) in
      case s key of
        None \<Rightarrow>
          (\<lparr>allowed = True, remaining = maxRequests - 1, res_resetAt = now + windowMs\<rparr>,
           s(key \<mapsto> \<lparr>count = 1, resetAt = now + windowMs\<rparr>))
      | Some data \<Rightarrow>
          if now > resetAt data then
            (\<lparr>allowed = True, remaining = maxRequests - 1, res_resetAt = now + windowMs\<rparr>,
             s(key \<mapsto> \<lparr>count = 1, resetAt = now + windowMs\<rparr>))
          else if count data \<ge> maxRequests then
            (\<lparr>allowed = False, remaining = 0, res_resetAt = resetAt data\<rparr>, s)
          else
            (let data' = data\<lparr>count := count data + 1\<rparr> in
             (\<lparr>allowed = True, remaining = maxRequests - count data',
               res_resetAt = resetAt data'\<rparr>,
              s(key \<mapsto> data'))))"

text \<open>
  A history of calls: each call is (outcome of the random test, time, identifier).
  \<open>run\<close> is the store after the calls, in order.
\<close>

type_synonym rl_call = "bool \<times> int \<times> string"

fun run :: "rl_store \<Rightarrow> rl_call list \<Rightarrow> rl_store" where
  "run s [] = s"
| "run s ((rnd, now, k) # cs) = run (snd (checkRateLimit rnd now k s)) cs"

text \<open>How many calls of a history are for identifier \<open>k\<close>.\<close>

definition calls_of :: "string \<Rightarrow> rl_call list \<Rightarrow> int" where
  "calls_of k cs = int (length (filter (\<lambda>c. snd (snd c) = k) cs))"

text \<open>The invariant of the store: no count above \<open>maxRequests\<close>.\<close>

definition store_inv :: "rl_store \<Rightarrow> bool" where
  "store_inv s = (\<forall>k e. s k = Some e \<longrightarrow> count e \<le> maxRequests)"

subsection \<open>JavaScript strings, tables and JSON values\<close>

text \<open>
  \<^verbatim>\<open>x || d\<close> on a string: the empty string is falsy. \<open>header_or\<close> is the same on the
  result of \<^verbatim>\<open>request.headers.get(name)\<close>, which is \<^verbatim>\<open>null\<close> (here \<open>None\<close>) when the header is
  absent.
\<close>

definition str_or :: "string \<Rightarrow> string \<Rightarrow> string" where
  "str_or s d = (if s = [] then d else s)"

definition header_or :: "string option \<Rightarrow> string \<Rightarrow> string" where
  "header_or h d = (case h of None \<Rightarrow> d | Some s \<Rightarrow> str_or s d)"

text \<open>\<^verbatim>\<open>s.startsWith(p)\<close>.\<close>

fun startsWith :: "string \<Rightarrow> string \<Rightarrow> bool" where
  "startsWith s [] = True"
| "startsWith [] (c # cs) = False"
| "startsWith (x # xs) (c # cs) = (x = c \<and> startsWith xs cs)"

text \<open>\<^verbatim>\<open>s.split('/')\<close>; the path parts are its non-empty pieces (\<^verbatim>\<open>.filter(Boolean)\<close>).\<close>

fun split_slash :: "string \<Rightarrow> string list" where
  "split_slash [] = [[]]"
| "split_slash (c # cs) =
     (if c = CHR ''/'' then [] # split_slash cs
      else (case split_slash cs of
              [] \<Rightarrow> [[c]]
            | p # ps \<Rightarrow> (c # p) # ps))"

definition pathParts :: "string \<Rightarrow> string list" where
  "pathParts pathname = filter (\<lambda>p. p \<noteq> []) (split_slash pathname)"

text \<open>\<^verbatim>\<open>n.toString()\<close> on an integer: its decimal digits, with a sign when negative.\<close>

definition digit :: "nat \<Rightarrow> char" where
  "digit n = ''0123456789'' ! (n mod 10)"

function show_nat :: "nat \<Rightarrow> string" where
  "show_nat n = (if n < 10 then [digit n] else show_nat (n div 10) @ [digit n])"
  by pat_completeness auto
termination
  by (relation "measure id") auto

declare show_nat.simps [simp del]

definition show_int :: "int \<Rightarrow> string" where
  "show_int i = (if i < 0 then CHR ''-'' # show_nat (nat (- i)) else show_nat (nat i))"

text \<open>\<^verbatim>\<open>Math.ceil(x / 1000)\<close> on an integer \<open>x\<close>.\<close>

definition ceil_div_1000 :: "int \<Rightarrow> int" where
  "ceil_div_1000 x = - ((- x) div 1000)"

text \<open>
  An insertion-ordered table of names and values stands for a \<^verbatim>\<open>Headers\<close> object, for the
  own properties of a plain object and for the pairs of a \<^verbatim>\<open>URLSearchParams\<close>. A look-up is
  \<open>map_of\<close> (the first pair of that name). \<open>assoc_set\<close> is \<^verbatim>\<open>headers.set(k, v)\<close> and the
  assignment \<^verbatim>\<open>obj[k] = v\<close>: an existing name keeps its place and takes the new value, a new
  name goes last.
\<close>

fun assoc_set :: "string \<Rightarrow> 'v \<Rightarrow> (string \<times> 'v) list \<Rightarrow> (string \<times> 'v) list" where
  "assoc_set k v [] = [(k, v)]"
| "assoc_set k v ((k', v') # kvs) =
     (if k' = k then (k, v) # kvs else (k', v') # assoc_set k v kvs)"

text \<open>
  A property read \<^verbatim>\<open>obj[name]\<close> on a plain object finds an own property, or else what the
  object inherits from \<^verbatim>\<open>Object.prototype\<close> (a function; for \<^verbatim>\<open>__proto__\<close> the prototype
  itself: truthy values), or else \<^verbatim>\<open>undefined\<close>. The two reads of the source whose name comes
  from the request's path are modelled with the three cases. The name of a secret comes
  from the configuration and is taken not to be an inherited name of \<^verbatim>\<open>env\<close>.
\<close>

definition object_prototype_keys :: "string list" where
  "object_prototype_keys =
     [''constructor'', ''__defineGetter__'', ''__defineSetter__'', ''hasOwnProperty'',
      ''__lookupGetter__'', ''__lookupSetter__'', ''isPrototypeOf'', ''propertyIsEnumerable'',
      ''toString'', ''valueOf'', ''__proto__'', ''toLocaleString'']"

datatype 'a js_prop = Own 'a | Inherited | Missing

definition js_lookup :: "(string \<times> 'a) list \<Rightarrow> string \<Rightarrow> 'a js_prop" where
  "js_lookup obj name =
     (case map_of obj name of
        Some v \<Rightarrow> Own v
      | None \<Rightarrow> if name \<in> set object_prototype_keys then Inherited else Missing)"

text \<open>
  The order in which \<^verbatim>\<open>JSON.stringify\<close> writes the properties of a plain object: first the
  names that are array indices (the decimal writing of a number below \<open>2^32 - 1\<close>), by
  ascending number, then the other names in the order they were added.
\<close>

definition digit_val :: "char \<Rightarrow> nat option" where
  "digit_val c =
     map_of [(CHR ''0'', 0), (CHR ''1'', 1), (CHR ''2'', 2), (CHR ''3'', 3), (CHR ''4'', 4),
             (CHR ''5'', 5), (CHR ''6'', 6), (CHR ''7'', 7), (CHR ''8'', 8), (CHR ''9'', 9)] c"

fun parse_digits :: "string \<Rightarrow> nat \<Rightarrow> nat option" where
  "parse_digits [] acc = Some acc"
| "parse_digits (c # cs) acc =
     (case digit_val c of
        None \<Rightarrow> None
      | Some d \<Rightarrow> parse_digits cs (10 * acc + d))"

definition parse_nat :: "string \<Rightarrow> nat option" where
  "parse_nat s = (if s = [] then None else parse_digits s 0)"

definition is_index :: "string \<Rightarrow> bool" where
  "is_index s =
     (case parse_nat s of
        None \<Rightarrow> False
      | Some n \<Rightarrow> n < 4294967295 \<and> show_nat n = s)"

definition index_of :: "string \<Rightarrow> nat" where
  "index_of s = (case parse_nat s of None \<Rightarrow> 0 | Some n \<Rightarrow> n)"

definition js_order :: "(string \<times> 'v) list \<Rightarrow> (string \<times> 'v) list" where
  "js_order kvs =
     sort_key (\<lambda>kv. index_of (fst kv)) (filter (\<lambda>kv. is_index (fst kv)) kvs)
     @ filter (\<lambda>kv. \<not> is_index (fst kv)) kvs"

text \<open>
  \<^verbatim>\<open>searchParams.set(k, v)\<close>: the first pair named \<open>k\<close> takes the value and the other pairs
  named \<open>k\<close> are removed; a new name goes last. \<^verbatim>\<open>searchParams.get(k)\<close> is \<open>map_of\<close>.
\<close>

fun sp_set :: "string \<Rightarrow> string \<Rightarrow> (string \<times> string) list \<Rightarrow> (string \<times> string) list" where
  "sp_set k v [] = [(k, v)]"
| "sp_set k v ((k', v') # ps) =
     (if k' = k then (k, v) # filter (\<lambda>p. fst p \<noteq> k) ps else (k', v') # sp_set k v ps)"

text \<open>
  A JSON value, as \<^verbatim>\<open>JSON.parse\<close> gives it and \<^verbatim>\<open>JSON.stringify\<close> takes it. The worker only
  copies the numbers of a client body, so their payload is kept as an \<open>int\<close>.
\<close>

datatype json =
    JNull
  | JBool bool
  | JNum int
  | JStr string
  | JArr "json list"
  | JObj "(string \<times> json) list"

text \<open>
  The own properties that \<^verbatim>\<open>field in value\<close> and \<^verbatim>\<open>value[field]\<close> see: the members of an
  object; the indices and \<^verbatim>\<open>length\<close> of an array. On \<^verbatim>\<open>null\<close>, a boolean, a number or a
  string \<^verbatim>\<open>in\<close> throws a \<^verbatim>\<open>TypeError\<close>: \<open>None\<close>.
\<close>

fun own_props :: "json \<Rightarrow> (string \<times> json) list option" where
  "own_props (JObj kvs) = Some kvs"
| "own_props (JArr xs) =
     Some (zip (map show_nat [0..<length xs]) xs @ [(''length'', JNum (int (length xs)))])"
| "own_props JNull = None"
| "own_props (JBool b) = None"
| "own_props (JNum n) = None"
| "own_props (JStr s) = None"

datatype js_error = TypeError

subsection \<open>Configuration, requests and responses\<close>

text \<open>
  A parsed URL (\<^verbatim>\<open>new URL(...)\<close>): everything before the path, the path, and the query as
  \<^verbatim>\<open>searchParams\<close>.
\<close>

record js_url =
  u_origin :: string
  u_pathname :: string
  u_searchParams :: "(string \<times> string) list"

text \<open>
  An entry of \<^verbatim>\<open>APP_CONFIG[app].apis\<close>. \<^verbatim>\<open>params\<close>, \<^verbatim>\<open>bodyFields\<close> and \<^verbatim>\<open>cache\<close> are optional
  in the source's own configuration: \<open>None\<close> is \<^verbatim>\<open>undefined\<close>. \<open>api_url\<close> is
  \<^verbatim>\<open>new URL(apiConfig.url)\<close>.
\<close>

record apiConfig =
  api_url :: js_url
  api_secret :: string
  api_method :: string
  api_params :: "string list option"
  api_bodyFields :: "string list option"
  api_cache :: "int option"

record appConfig =
  origins :: "string list"
  apis :: "(string \<times> apiConfig) list"

type_synonym app_config = "(string \<times> appConfig) list"

text \<open>The truthiness of \<^verbatim>\<open>apiConfig.cache\<close>: defined and not 0.\<close>

definition cache_enabled :: "apiConfig \<Rightarrow> bool" where
  "cache_enabled apiConfig = (case api_cache apiConfig of None \<Rightarrow> False | Some n \<Rightarrow> n \<noteq> 0)"

text \<open>
  A response: status, headers, body. A body is absent, a text, or the \<^verbatim>\<open>JSON.stringify\<close> of
  a value (kept as the value).
\<close>

datatype resp_body = NoBody | TextBody string | JsonBody json

record response =
  status :: int
  headers :: "(string \<times> string) list"
  body :: resp_body

text \<open>
  The inbound request: method, \<^verbatim>\<open>new URL(request.url)\<close>, \<^verbatim>\<open>request.headers.get\<close> (on the
  header names as the source writes them), whether it has a body (\<^verbatim>\<open>request.body\<close> is not
  \<^verbatim>\<open>null\<close>), and what \<^verbatim>\<open>request.json()\<close> resolves to (\<open>None\<close> when it rejects: there is no
  body, or the body is not JSON).
\<close>

record request =
  req_method :: string
  req_url :: js_url
  req_headers :: "string \<Rightarrow> string option"
  req_has_body :: bool
  req_json :: "json option"

text \<open>The outbound request handed to the global \<^verbatim>\<open>fetch\<close>, and what that call does.\<close>

record outbound =
  out_url :: js_url
  out_method :: string
  out_headers :: "(string \<times> string) list"
  out_body :: "json option"

record api_response =
  ar_status :: int
  ar_content_type :: "string option"
  ar_text :: string

datatype fetch_result = Responded api_response | AbortError | OtherError

text \<open>\<^verbatim>\<open>apiResponse.ok\<close>: the status is in the range 200-299.\<close>

definition ar_ok :: "api_response \<Rightarrow> bool" where
  "ar_ok r = (200 \<le> ar_status r \<and> ar_status r \<le> 299)"

text \<open>
  What one invocation of the worker reads from its platform: the outcome of
  \<^verbatim>\<open>Math.random() < 0.01\<close> and the value of \<^verbatim>\<open>Date.now()\<close> inside \<^verbatim>\<open>checkRateLimit\<close>; the
  value of \<^verbatim>\<open>Date.now()\<close> when a 429 is built; what \<^verbatim>\<open>cache.match(cacheKey)\<close> resolves to; the
  behaviour of the upstream call (an \<open>AbortError\<close> is what the 10 second timer's
  \<^verbatim>\<open>controller.abort()\<close> makes \<^verbatim>\<open>fetch\<close> reject with); the message of an exception caught by
  the outer \<^verbatim>\<open>catch\<close>.
\<close>

record platform =
  random_lt :: bool
  now_check :: int
  now_429 :: int
  cache_match :: "response option"
  upstream :: "outbound \<Rightarrow> fetch_result"
  error_message :: string

text \<open>
  What one invocation does: the response it returns, the rate-limit store it leaves, the
  outbound request if the upstream was called, the response handed to \<^verbatim>\<open>cache.put\<close> if it
  was called, and which \<^verbatim>\<open>return\<close> of the source produced the response.
\<close>

datatype exit_point =
    Preflight
  | InvalidRoute
  | UnknownApp
  | UnknownApi
  | Forbidden
  | RateLimited
  | CacheHit
  | ConfigurationError
  | GatewayTimeout
  | BadGateway
  | InternalError
  | Proxied

record outcome =
  o_response :: response
  o_store :: rl_store
  o_upstream :: "outbound option"
  o_cache_put :: "response option"
  o_exit :: exit_point

definition finish :: "exit_point \<Rightarrow> response \<Rightarrow> rl_store \<Rightarrow> outcome" where
  "finish e r st =
     \<lparr>o_response = r, o_store = st, o_upstream = None, o_cache_put = None, o_exit = e\<rparr>"

subsection \<open>Response helpers\<close>

text \<open>\<^verbatim>\<open>handleCORS(request)\<close>.\<close>

definition handleCORS :: "request \<Rightarrow> response" where
  "handleCORS request =
     (let origin = header_or (req_headers request ''Origin'') ''*'' in
      \<lparr>status = 204,
       headers = [(''Access-Control-Allow-Origin'', origin),
                  (''Access-Control-Allow-Methods'', ''GET, POST, OPTIONS''),
                  (''Access-Control-Allow-Headers'', ''Content-Type''),
                  (''Access-Control-Max-Age'', ''86400'')],
       body = NoBody\<rparr>)"

text \<open>\<^verbatim>\<open>addCORSHeaders(response, origin)\<close>.\<close>

definition addCORSHeaders :: "response \<Rightarrow> string \<Rightarrow> response" where
  "addCORSHeaders response origin =
     response\<lparr>headers :=
       assoc_set ''Access-Control-Allow-Methods'' ''GET, POST, OPTIONS''
         (assoc_set ''Access-Control-Allow-Origin'' (str_or origin ''*'') (headers response))\<rparr>"

text \<open>\<^verbatim>\<open>jsonResponse(data, status)\<close>.\<close>

definition jsonResponse :: "json \<Rightarrow> int \<Rightarrow> response" where
  "jsonResponse data st =
     \<lparr>status = st,
      headers = [(''Content-Type'', ''application/json''),
                 (''Access-Control-Allow-Origin'', ''*'')],
      body = JsonBody data\<rparr>"

text \<open>The 429 response that \<^verbatim>\<open>fetch\<close> builds in place when the rate limit denies.\<close>

definition tooManyRequests :: "rl_result \<Rightarrow> int \<Rightarrow> string \<Rightarrow> response" where
  "tooManyRequests rateLimit now origin =
     (let resetIn = ceil_div_1000 (res_resetAt rateLimit - now) in
      \<lparr>status = 429,
       headers = [(''Content-Type'', ''application/json''),
                  (''Retry-After'', show_int resetIn),
                  (''X-RateLimit-Limit'', show_int maxRequests),
                  (''X-RateLimit-Remaining'', ''0''),
                  (''X-RateLimit-Reset'', show_int (res_resetAt rateLimit)),
                  (''Access-Control-Allow-Origin'', str_or origin ''*'')],
       body = JsonBody (JObj
         [(''error'', JStr ''Too Many Requests''),
          (''message'', JStr (''Rate limit exceeded. Try again in '' @ show_int resetIn
              @ '' seconds.'')),
          (''retryAfter'', JNum resetIn)])\<rparr>)"

subsection \<open>Origin validation\<close>

text \<open>
  \<^verbatim>\<open>appConfig.origins.some(allowed => origin.startsWith(allowed) || referer.startsWith(allowed))\<close>
  with \<^verbatim>\<open>origin = request.headers.get('Origin') || ''\<close> and the same for \<^verbatim>\<open>Referer\<close>.
\<close>

definition isAllowed :: "appConfig \<Rightarrow> string option \<Rightarrow> string option \<Rightarrow> bool" where
  "isAllowed appConfig originHeader refererHeader =
     (let origin = header_or originHeader '''';
          referer = header_or refererHeader ''''
      in list_ex (\<lambda>allowed. startsWith origin allowed \<or> startsWith referer allowed)
           (origins appConfig))"

subsection \<open>Building the outbound request\<close>

text \<open>
  The loop over \<^verbatim>\<open>apiConfig.params\<close>: a listed parameter whose first value in the client's
  query is a non-empty string (\<^verbatim>\<open>if (value)\<close>) is set on the outbound query.
\<close>

fun copy_params ::
  "string list \<Rightarrow> (string \<times> string) list \<Rightarrow> (string \<times> string) list \<Rightarrow> (string \<times> string) list"
where
  "copy_params [] clientParams proxyParams = proxyParams"
| "copy_params (param # rest) clientParams proxyParams =
     copy_params rest clientParams
       (case map_of clientParams param of
          None \<Rightarrow> proxyParams
        | Some v \<Rightarrow> if v \<noteq> [] then sp_set param v proxyParams else proxyParams)"

text \<open>
  \<^verbatim>\<open>proxyUrl\<close>: \<^verbatim>\<open>new URL(apiConfig.url)\<close>, and inside
  \<^verbatim>\<open>if (apiConfig.method === 'GET' && apiConfig.params)\<close> the secret is set as \<^verbatim>\<open>key\<close> first
  and the listed parameters are copied after it. An array is truthy, also when empty.
\<close>

definition build_url :: "apiConfig \<Rightarrow> string \<Rightarrow> (string \<times> string) list \<Rightarrow> js_url" where
  "build_url apiConfig secretValue clientParams =
     (let proxyUrl = api_url apiConfig in
      case api_params apiConfig of
        None \<Rightarrow> proxyUrl
      | Some params \<Rightarrow>
          if api_method apiConfig = ''GET'' then
            proxyUrl\<lparr>u_searchParams :=
              copy_params params clientParams
                (sp_set ''key'' secretValue (u_searchParams proxyUrl))\<rparr>
          else proxyUrl)"

text \<open>
  The loop over \<^verbatim>\<open>apiConfig.bodyFields\<close>: \<^verbatim>\<open>if (field in clientBody) allowedBody[field] =
  clientBody[field]\<close>. The first \<^verbatim>\<open>in\<close> on a client body that is not an object throws.
  \<open>allowedBody\<close> holds the properties that \<^verbatim>\<open>JSON.stringify\<close> will write. A name that the client
  body only inherits is \<^verbatim>\<open>in\<close> it, with a function as value (for \<^verbatim>\<open>__proto__\<close>, the
  prototype), which \<^verbatim>\<open>JSON.stringify\<close> leaves out: nothing is copied. The assignment
  \<^verbatim>\<open>allowedBody['__proto__'] = v\<close> runs the inherited setter and makes no property, also when
  the client body has a member of that name.
\<close>

fun copy_fields ::
  "string list \<Rightarrow> json \<Rightarrow> (string \<times> json) list \<Rightarrow> js_error + (string \<times> json) list"
where
  "copy_fields [] clientBody allowedBody = Inr allowedBody"
| "copy_fields (field # rest) clientBody allowedBody =
     (case own_props clientBody of
        None \<Rightarrow> Inl TypeError
      | Some props \<Rightarrow>
          copy_fields rest clientBody
            (case map_of props field of
               None \<Rightarrow> allowedBody
             | Some v \<Rightarrow>
                 if field = ''__proto__'' then allowedBody
                 else assoc_set field v allowedBody))"

text \<open>
  \<^verbatim>\<open>proxyOptions.body\<close>: set only inside
  \<^verbatim>\<open>if (apiConfig.method === 'POST' && apiConfig.bodyFields)\<close>. There
  \<^verbatim>\<open>request.json().catch(() => ({}))\<close> turns a body that does not parse into the empty
  object, the listed fields are copied, and \<^verbatim>\<open>allowedBody.key = secretValue\<close> comes last.
  The body is \<^verbatim>\<open>JSON.stringify(allowedBody)\<close>: the properties in the order \<open>js_order\<close>.
  \<open>Inr None\<close>: no body is sent.
\<close>

definition build_body :: "apiConfig \<Rightarrow> string \<Rightarrow> json option \<Rightarrow> js_error + json option" where
  "build_body apiConfig secretValue parsed =
     (case api_bodyFields apiConfig of
        None \<Rightarrow> Inr None
      | Some bodyFields \<Rightarrow>
          if api_method apiConfig = ''POST'' then
            (let clientBody = (case parsed of None \<Rightarrow> JObj [] | Some v \<Rightarrow> v) in
             case copy_fields bodyFields clientBody [] of
               Inl e \<Rightarrow> Inl e
             | Inr allowedBody \<Rightarrow>
                 Inr (Some (JObj (js_order (assoc_set ''key'' (JStr secretValue) allowedBody)))))
          else Inr None)"

subsection \<open>The request pipeline\<close>

text \<open>
  Route resolution (the first part of \<^verbatim>\<open>fetch\<close> after the preflight test): the path needs
  two parts, and \<^verbatim>\<open>APP_CONFIG[appName]\<close> and \<^verbatim>\<open>appConfig.apis[apiName]\<close> must be truthy.
  \<^verbatim>\<open>Object.keys\<close> lists the names in the order \<open>js_order\<close>.
  \<open>Inr\<close>: both names are own names of the configuration. \<open>Inl\<close>: one of them is not.
  \<^item> \<open>NotFound\<close>: one of the three 404s, with the exit taken.
  \<^item> \<open>InheritedApp\<close>: the app name is a name of \<^verbatim>\<open>Object.prototype\<close>; \<^verbatim>\<open>appConfig\<close> is then a
    function (or the prototype), \<^verbatim>\<open>appConfig.apis\<close> is \<^verbatim>\<open>undefined\<close> and reading
    \<^verbatim>\<open>appConfig.apis[apiName]\<close> throws.
  \<^item> \<open>InheritedApi\<close>: the app is configured and the API name is a name of
    \<^verbatim>\<open>Object.prototype\<close>; \<^verbatim>\<open>apiConfig\<close> is then truthy and every field the worker reads of it
    is \<^verbatim>\<open>undefined\<close>.
\<close>

datatype route_failure =
    NotFound exit_point response
  | InheritedApp
  | InheritedApi string appConfig

definition route ::
  "app_config \<Rightarrow> request \<Rightarrow> route_failure + (string \<times> string \<times> appConfig \<times> apiConfig)"
where
  "route APP_CONFIG request =
     (case pathParts (u_pathname (req_url request)) of
        appName # apiName # rest \<Rightarrow>
          (case js_lookup APP_CONFIG appName of
             Missing \<Rightarrow>
               Inl (NotFound UnknownApp (jsonResponse (JObj
                 [(''error'', JStr ''Unknown app''),
                  (''availableApps'',
                     JArr (map (\<lambda>p. JStr (fst p)) (js_order APP_CONFIG)))]) 404))
           | Inherited \<Rightarrow> Inl InheritedApp
           | Own appConfig \<Rightarrow>
               (case js_lookup (apis appConfig) apiName of
                  Missing \<Rightarrow>
                    Inl (NotFound UnknownApi (jsonResponse (JObj
                      [(''error'', JStr ''Unknown API endpoint''),
                       (''availableApis'',
                          JArr (map (\<lambda>p. JStr (fst p))
                                  (js_order (apis appConfig))))]) 404))
                | Inherited \<Rightarrow> Inl (InheritedApi appName appConfig)
                | Own apiConfig \<Rightarrow> Inr (appName, apiName, appConfig, apiConfig)))
      | _ \<Rightarrow>
          Inl (NotFound InvalidRoute (jsonResponse (JObj
            [(''error'', JStr ''Invalid route. Use /{appName}/{apiName}''),
             (''example'', JStr ''/myblog/weather?q=London'')]) 404)))"

text \<open>
  The last part of \<^verbatim>\<open>fetch\<close>, from "Get the secret for this API" on: the secret is looked up
  in \<^verbatim>\<open>env\<close> (absent or empty is falsy), the outbound request is built, the upstream is
  called, and its answer or its failure becomes the response. A \<^verbatim>\<open>TypeError\<close> while the body
  is built is caught by the outer \<^verbatim>\<open>catch\<close>. The upstream's behaviour is the platform's
  \<open>upstream\<close>: \<open>Responded\<close> when \<^verbatim>\<open>fetch\<close> and \<^verbatim>\<open>apiResponse.text()\<close> both succeed,
  \<open>AbortError\<close> or \<open>OtherError\<close> by the name of what they reject with.

  Before \<^verbatim>\<open>cache.put\<close> the cache key is built with \<^verbatim>\<open>new Request(request.url, request)\<close>.
  When \<^verbatim>\<open>request.json()\<close> has read the request's body (a POST API with \<^verbatim>\<open>bodyFields\<close>, and a
  request that has a body) that constructor throws a \<^verbatim>\<open>TypeError\<close>, inside the inner \<^verbatim>\<open>try\<close>:
  the response is the 502 and nothing is stored. The other uses of the platform's
  constructors (\<^verbatim>\<open>new URL\<close>, \<^verbatim>\<open>new Response\<close>) are taken not to throw.
\<close>

definition body_read :: "apiConfig \<Rightarrow> request \<Rightarrow> bool" where
  "body_read apiConfig request =
     (api_method apiConfig = ''POST'' \<and> api_bodyFields apiConfig \<noteq> None
      \<and> req_has_body request)"

definition forward ::
  "(string \<Rightarrow> string option) \<Rightarrow> platform \<Rightarrow> request \<Rightarrow> string \<Rightarrow> string \<Rightarrow> apiConfig
     \<Rightarrow> string \<Rightarrow> rl_result \<Rightarrow> rl_store \<Rightarrow> outcome"
where
  "forward env pf request appName apiName apiConfig origin rateLimit st =
     (case env (api_secret apiConfig) of
        None \<Rightarrow>
          finish ConfigurationError
            (jsonResponse (JObj [(''error'', JStr ''Configuration error'')]) 500) st
      | Some secretValue \<Rightarrow>
          if secretValue = [] then
            finish ConfigurationError
              (jsonResponse (JObj [(''error'', JStr ''Configuration error'')]) 500) st
          else
            (let proxyUrl = build_url apiConfig secretValue (u_searchParams (req_url request)) in
             case build_body apiConfig secretValue (req_json request) of
               Inl e \<Rightarrow>
                 finish InternalError
                   (jsonResponse (JObj
                      [(''error'', JStr ''Internal server error''),
                       (''message'', JStr (error_message pf))]) 500) st
             | Inr proxyBody \<Rightarrow>
                 (let proxyRequest =
                    \<lparr>out_url = proxyUrl, out_method = api_method apiConfig,
                     out_headers = [(''Content-Type'', ''application/json''),
                                    (''User-Agent'', ''StatEnv-Proxy/1.0'')],
                     out_body = proxyBody\<rparr>
                  in
                  case upstream pf proxyRequest of
                    AbortError \<Rightarrow>
                      (finish GatewayTimeout
                         (jsonResponse (JObj
                            [(''error'', JStr ''Gateway Timeout''),
                             (''message'', JStr ''External API took too long to respond'')]) 504)
                         st)
                      \<lparr>o_upstream := Some proxyRequest\<rparr>
                  | OtherError \<Rightarrow>
                      (finish BadGateway
                         (jsonResponse (JObj
                            [(''error'', JStr ''Bad Gateway''),
                             (''message'', JStr ''Failed to reach external API'')]) 502)
                         st)
                      \<lparr>o_upstream := Some proxyRequest\<rparr>
                  | Responded apiResponse \<Rightarrow>
                      (let response =
                         \<lparr>status = ar_status apiResponse,
                          headers =
                            [(''Content-Type'',
                                header_or (ar_content_type apiResponse) ''application/json''),
                             (''Cache-Control'',
                                (case api_cache apiConfig of
                                   None \<Rightarrow> ''no-cache''
                                 | Some n \<Rightarrow>
                                     if n \<noteq> 0 then ''public, max-age='' @ show_int n
                                     else ''no-cache'')),
                             (''X-StatEnv-App'', appName),
                             (''X-StatEnv-API'', apiName),
                             (''X-RateLimit-Limit'', show_int maxRequests),
                             (''X-RateLimit-Remaining'', show_int (remaining rateLimit)),
                             (''X-RateLimit-Reset'', show_int (res_resetAt rateLimit)),
                             (''X-Cache'', ''MISS'')],
                          body = TextBody (ar_text apiResponse)\<rparr>
                       in
                       if cache_enabled apiConfig \<and> ar_ok apiResponse
                          \<and> body_read apiConfig request
                       then
                         (finish BadGateway
                            (jsonResponse (JObj
                               [(''error'', JStr ''Bad Gateway''),
                                (''message'', JStr ''Failed to reach external API'')]) 502)
                            st)
                         \<lparr>o_upstream := Some proxyRequest\<rparr>
                       else
                         \<lparr>o_response = addCORSHeaders response origin,
                          o_store = st,
                          o_upstream = Some proxyRequest,
                          o_cache_put =
                            (if cache_enabled apiConfig \<and> ar_ok apiResponse then Some response
                             else None),
                          o_exit = Proxied\<rparr>))))"

text \<open>
  What follows the rate limiter when the API name is an inherited one: \<^verbatim>\<open>apiConfig.cache\<close> is
  \<^verbatim>\<open>undefined\<close>, so the cache is not looked at; the secret is \<^verbatim>\<open>env[undefined]\<close>, the binding
  called \<^verbatim>\<open>undefined\<close>; without it the answer is the 500 \<^verbatim>\<open>Configuration error\<close>, and with it
  \<^verbatim>\<open>new URL(undefined)\<close> throws and the outer \<^verbatim>\<open>catch\<close> answers.
\<close>

definition forward_undefined ::
  "(string \<Rightarrow> string option) \<Rightarrow> platform \<Rightarrow> rl_store \<Rightarrow> outcome"
where
  "forward_undefined env pf st =
     (case env ''undefined'' of
        None \<Rightarrow>
          finish ConfigurationError
            (jsonResponse (JObj [(''error'', JStr ''Configuration error'')]) 500) st
      | Some secretValue \<Rightarrow>
          if secretValue = [] then
            finish ConfigurationError
              (jsonResponse (JObj [(''error'', JStr ''Configuration error'')]) 500) st
          else
            finish InternalError
              (jsonResponse (JObj
                 [(''error'', JStr ''Internal server error''),
                  (''message'', JStr (error_message pf))]) 500) st)"

text \<open>
  The cache look-up of \<^verbatim>\<open>fetch\<close>: only inside \<^verbatim>\<open>if (apiConfig.cache)\<close>. A hit is returned
  with \<^verbatim>\<open>X-Cache: HIT\<close>, the rate-limit headers of this request and the CORS headers; on a
  miss, or without caching, the request is forwarded.
\<close>

definition serve ::
  "(string \<Rightarrow> string option) \<Rightarrow> platform \<Rightarrow> request \<Rightarrow> string \<Rightarrow> string \<Rightarrow> apiConfig
     \<Rightarrow> string \<Rightarrow> rl_result \<Rightarrow> rl_store \<Rightarrow> outcome"
where
  "serve env pf request appName apiName apiConfig origin rateLimit st =
     (case (if cache_enabled apiConfig then cache_match pf else None) of
        Some cachedResponse \<Rightarrow>
          (let response = cachedResponse\<lparr>headers :=
                 assoc_set ''X-RateLimit-Reset'' (show_int (res_resetAt rateLimit))
                   (assoc_set ''X-RateLimit-Remaining'' (show_int (remaining rateLimit))
                     (assoc_set ''X-RateLimit-Limit'' (show_int maxRequests)
                       (assoc_set ''X-Cache'' ''HIT'' (headers cachedResponse))))\<rparr>
           in finish CacheHit (addCORSHeaders response origin) st)
      | None \<Rightarrow> forward env pf request appName apiName apiConfig origin rateLimit st)"

text \<open>
  The identifier the rate limiter is asked about: the client's IP address
  (\<^verbatim>\<open>request.headers.get('CF-Connecting-IP') || 'unknown'\<close>) when \<^verbatim>\<open>RATE_LIMIT.perIP\<close>, else
  the app's name.
\<close>

definition rateLimitKey :: "request \<Rightarrow> string \<Rightarrow> string" where
  "rateLimitKey request appName =
     (let clientIP = header_or (req_headers request ''CF-Connecting-IP'') ''unknown'' in
      if perIP then clientIP else appName)"

text \<open>
  Origin validation and rate limiting, the two steps of \<^verbatim>\<open>fetch\<close> between route resolution
  and the cache: \<open>Inl\<close> is the outcome when one of them answers (403, 429), \<open>Inr\<close> the
  \<^verbatim>\<open>origin\<close>, the rate limiter's answer and the store it leaves.
\<close>

definition admit ::
  "platform \<Rightarrow> request \<Rightarrow> string \<Rightarrow> appConfig \<Rightarrow> rl_store
     \<Rightarrow> outcome + (string \<times> rl_result \<times> rl_store)"
where
  "admit pf request appName appConfig st =
     (let origin = header_or (req_headers request ''Origin'') '''' in
      if \<not> isAllowed appConfig (req_headers request ''Origin'')
            (req_headers request ''Referer'')
      then Inl (finish Forbidden (jsonResponse (JObj [(''error'', JStr ''Forbidden'')]) 403) st)
      else
        (let (rateLimit, st') =
                checkRateLimit (random_lt pf) (now_check pf)
                  (rateLimitKey request appName) st
         in
         if \<not> allowed rateLimit then
           Inl (finish RateLimited (tooManyRequests rateLimit (now_429 pf) origin) st')
         else Inr (origin, rateLimit, st')))"

text \<open>
  \<^verbatim>\<open>fetch(request, env, ctx)\<close>, the worker's entry point: preflight, route resolution,
  origin validation, rate limiting, then the cache and the upstream. \<open>APP_CONFIG\<close> and
  \<^verbatim>\<open>env\<close> are arguments; \<open>st\<close> is \<^verbatim>\<open>rateLimitStore\<close> before the call.
\<close>

definition fetch ::
  "app_config \<Rightarrow> (string \<Rightarrow> string option) \<Rightarrow> platform \<Rightarrow> request \<Rightarrow> rl_store \<Rightarrow> outcome"
where
  "fetch APP_CONFIG env pf request st =
     (if req_method request = ''OPTIONS'' then finish Preflight (handleCORS request) st
      else
        case route APP_CONFIG request of
          Inl failure \<Rightarrow>
            (case failure of
               NotFound e r \<Rightarrow> finish e r st
             | InheritedApp \<Rightarrow>
                 finish InternalError
                   (jsonResponse (JObj
                      [(''error'', JStr ''Internal server error''),
                       (''message'', JStr (error_message pf))]) 500) st
             | InheritedApi appName appConfig \<Rightarrow>
                 (case admit pf request appName appConfig st of
                    Inl out \<Rightarrow> out
                  | Inr (origin, rateLimit, st') \<Rightarrow> forward_undefined env pf st'))
        | Inr (appName, apiName, appConfig, apiConfig) \<Rightarrow>
            (case admit pf request appName appConfig st of
               Inl out \<Rightarrow> out
             | Inr (origin, rateLimit, st') \<Rightarrow>
                 serve env pf request appName apiName apiConfig origin rateLimit st'))"

text \<open>
  A request is admitted when it is not a preflight and passes route resolution, origin
  validation and the rate limiter: the names and configuration it resolves to, the rate
  limiter's answer and the store the rate limiter leaves.
\<close>

definition admitted ::
  "app_config \<Rightarrow> platform \<Rightarrow> request \<Rightarrow> rl_store
     \<Rightarrow> string \<Rightarrow> string \<Rightarrow> appConfig \<Rightarrow> apiConfig \<Rightarrow> rl_result \<Rightarrow> rl_store \<Rightarrow> bool"
where
  "admitted cfg pf request st appName apiName appConfig apiConfig rateLimit st' =
     (req_method request \<noteq> ''OPTIONS''
      \<and> route cfg request = Inr (appName, apiName, appConfig, apiConfig)
      \<and> isAllowed appConfig (req_headers request ''Origin'') (req_headers request ''Referer'')
      \<and> checkRateLimit (random_lt pf) (now_check pf) (rateLimitKey request appName) st
          = (rateLimit, st')
      \<and> allowed rateLimit)"

text \<open>
  The check that \<^verbatim>\<open>validateConfig\<close> (the configuration utilities of the CLI) makes on
  \<^verbatim>\<open>cache\<close>: when defined, it is a number that is not negative.
\<close>

definition valid_cache :: "apiConfig \<Rightarrow> bool" where
  "valid_cache apiConfig = (case api_cache apiConfig of None \<Rightarrow> True | Some n \<Rightarrow> 0 \<le> n)"

text \<open>The configuration written in the source: \<^verbatim>\<open>APP_CONFIG\<close> and its parts.\<close>

definition weather :: apiConfig where
  "weather =
     \<lparr>api_url = \<lparr>u_origin = ''https://api.weatherapi.com'',
                  u_pathname = ''/v1/current.json'', u_searchParams = []\<rparr>,
      api_secret = ''MYBLOG_WEATHER_KEY'', api_method = ''GET'',
      api_params = Some [''q''], api_bodyFields = None, api_cache = Some 300\<rparr>"

definition analytics :: apiConfig where
  "analytics =
     \<lparr>api_url = \<lparr>u_origin = ''https://api.example.com'',
                  u_pathname = ''/track'', u_searchParams = []\<rparr>,
      api_secret = ''MYBLOG_ANALYTICS_KEY'', api_method = ''POST'',
      api_params = None, api_bodyFields = Some [''event'', ''data''], api_cache = None\<rparr>"

definition stripe :: apiConfig where
  "stripe =
     \<lparr>api_url = \<lparr>u_origin = ''https://api.stripe.com'',
                  u_pathname = ''/v1/payment_intents'', u_searchParams = []\<rparr>,
      api_secret = ''MYSHOP_STRIPE_KEY'', api_method = ''POST'',
      api_params = None, api_bodyFields = Some [''amount'', ''currency''], api_cache = None\<rparr>"

definition myblog :: appConfig where
  "myblog =
     \<lparr>origins = [''http://localhost:5500''],
      apis = [(''weather'', weather), (''analytics'', analytics)]\<rparr>"

definition myshop :: appConfig where
  "myshop =
     \<lparr>origins = [''https://shop.com'', ''http://localhost:8080''],
      apis = [(''stripe'', stripe)]\<rparr>"

definition APP_CONFIG :: app_config where
  "APP_CONFIG = [(''myblog'', myblog), (''myshop'', myshop)]"

text \<open>
  The request of the source's example and of its tests, \<^verbatim>\<open>GET /myblog/weather?q=London\<close>
  from the whitelisted origin; the secrets the tests bind; and a platform as in the tests,
  where nothing is cached and the upstream cannot be reached.
\<close>

definition weather_request :: request where
  "weather_request =
     \<lparr>req_method = ''GET'',
      req_url = \<lparr>u_origin = ''http://localhost:8787'', u_pathname = ''/myblog/weather'',
                 u_searchParams = [(''q'', ''London'')]\<rparr>,
      req_headers = [''Origin'' \<mapsto> ''http://localhost:5500''],
      req_has_body = False,
      req_json = None\<rparr>"

definition test_env :: "string \<Rightarrow> string option" where
  "test_env =
     [''MYBLOG_WEATHER_KEY'' \<mapsto> ''test-weather-key'',
      ''MYBLOG_ANALYTICS_KEY'' \<mapsto> ''test-analytics-key'']"

definition test_platform :: platform where
  "test_platform =
     \<lparr>random_lt = False, now_check = 1000, now_429 = 1000, cache_match = None,
      upstream = (\<lambda>proxyRequest. OtherError), error_message = []\<rparr>"

text \<open>
  More requests and platforms for the examples: an upstream that answers with a given
  status and the text \<^verbatim>\<open>{}\<close>; a tracking request for the POST API of \<^verbatim>\<open>myblog\<close>; a response
  as the cache may hold it.
\<close>

definition answering :: "int \<Rightarrow> platform" where
  "answering s =
     test_platform\<lparr>upstream :=
       (\<lambda>proxyRequest. Responded \<lparr>ar_status = s, ar_content_type = None, ar_text = ''{}''\<rparr>)\<rparr>"

definition analytics_request :: request where
  "analytics_request =
     \<lparr>req_method = ''POST'',
      req_url = \<lparr>u_origin = ''http://localhost:8787'', u_pathname = ''/myblog/analytics'',
                 u_searchParams = []\<rparr>,
      req_headers = [''Origin'' \<mapsto> ''http://localhost:5500''],
      req_has_body = True,
      req_json = Some (JObj [(''event'', JStr ''click''), (''admin'', JBool True)])\<rparr>"


section \<open>Properties\<close>

subsection \<open>Rate limiter\<close>

lemma cleanup_keeps:
  "s k = Some e \<Longrightarrow> \<not> now > resetAt e \<Longrightarrow> cleanup now s k = Some e"
  by (simp add: cleanup_def)

lemma cleanup_None:
  "s k = None \<Longrightarrow> cleanup now s k = None"
  by (simp add: cleanup_def)

lemma check_other:
  "k' \<noteq> k \<Longrightarrow> snd (checkRateLimit rnd now k' s) k = (if rnd then cleanup now s k else s k)"
  by (simp add: checkRateLimit_def Let_def split: option.splits)

lemma check_first:
  assumes "s k = None"
  shows "checkRateLimit rnd now k s =
    (\<lparr>allowed = True, remaining = maxRequests - 1, res_resetAt = now + windowMs\<rparr>,
     (if rnd then cleanup now s else s)(k \<mapsto> \<lparr>count = 1, resetAt = now + windowMs\<rparr>))"
  using assms by (simp add: checkRateLimit_def Let_def cleanup_None)

lemma check_expired:
  assumes "s k = Some e" and "now > resetAt e"
  shows "checkRateLimit rnd now k s =
    (\<lparr>allowed = True, remaining = maxRequests - 1, res_resetAt = now + windowMs\<rparr>,
     (if rnd then cleanup now s else s)(k \<mapsto> \<lparr>count = 1, resetAt = now + windowMs\<rparr>))"
  using assms by (simp add: checkRateLimit_def Let_def cleanup_def)

lemma check_full:
  assumes "s k = Some e" and "\<not> now > resetAt e" and "count e \<ge> maxRequests"
  shows "checkRateLimit rnd now k s =
    (\<lparr>allowed = False, remaining = 0, res_resetAt = resetAt e\<rparr>,
     (if rnd then cleanup now s else s))"
  using assms by (simp add: checkRateLimit_def Let_def cleanup_def)

lemma check_increment:
  assumes "s k = Some e" and "\<not> now > resetAt e" and "count e < maxRequests"
  shows "checkRateLimit rnd now k s =
    (\<lparr>allowed = True, remaining = maxRequests - (count e + 1), res_resetAt = resetAt e\<rparr>,
     (if rnd then cleanup now s else s)(k \<mapsto> e\<lparr>count := count e + 1\<rparr>))"
  using assms by (simp add: checkRateLimit_def Let_def cleanup_def)

lemma run_append: "run s (xs @ ys) = run (run s xs) ys"
  by (induction s xs rule: run.induct) simp_all

lemma calls_of_Cons:
  "calls_of k ((rnd, now, k') # cs) = (if k' = k then 1 + calls_of k cs else calls_of k cs)"
  by (simp add: calls_of_def)

text \<open>Calls for other identifiers never create an entry for \<open>k\<close>.\<close>

lemma run_absent:
  assumes "s k = None" and "\<forall>c\<in>set cs. snd (snd c) \<noteq> k"
  shows "run s cs k = None"
  using assms
proof (induction cs arbitrary: s)
  case Nil
  then show ?case by simp
next
  case (Cons c cs)
  obtain rnd now k' where c: "c = (rnd, now, k')" by (cases c) auto
  with Cons.prems have ne: "k' \<noteq> k" by simp
  have "snd (checkRateLimit rnd now k' s) k = None"
    using Cons.prems(1) by (simp add: check_other [OF ne] cleanup_None)
  moreover have "\<forall>c\<in>set cs. snd (snd c) \<noteq> k" using Cons.prems(2) by simp
  ultimately show ?case using Cons.IH c by simp
qed

text \<open>
  While every call of a history is made no later than the entry's \<open>resetAt\<close>, the entry of
  \<open>k\<close> keeps its \<open>resetAt\<close> and counts the calls for \<open>k\<close>, stopping at \<open>maxRequests\<close>.
\<close>

lemma run_window:
  assumes "s k = Some e" and "count e \<le> maxRequests"
    and "\<forall>c\<in>set cs. fst (snd c) \<le> resetAt e"
  shows "run s cs k = Some (e\<lparr>count := min maxRequests (count e + calls_of k cs)\<rparr>)"
  using assms
proof (induction cs arbitrary: s e)
  case Nil
  then show ?case by (simp add: calls_of_def)
next
  case (Cons c cs)
  obtain rnd now k' where c: "c = (rnd, now, k')" by (cases c) auto
  from Cons.prems(3) c have inwin: "\<not> now > resetAt e" by simp
  have rest: "\<forall>c\<in>set cs. fst (snd c) \<le> resetAt e" using Cons.prems(3) by simp
  let ?s = "if rnd then cleanup now s else s"
  have kept: "?s k = Some e"
    using Cons.prems(1) inwin by (simp add: cleanup_keeps)
  show ?case
  proof (cases "k' = k")
    case False
    then have "snd (checkRateLimit rnd now k' s) k = Some e"
      using kept by (cases rnd) (simp_all add: check_other)
    from Cons.IH [of "snd (checkRateLimit rnd now k' s)" e, OF this Cons.prems(2) rest]
    show ?thesis
      using False c by (simp add: calls_of_Cons)
  next
    case True
    show ?thesis
    proof (cases "count e \<ge> maxRequests")
      case full: True
      have "snd (checkRateLimit rnd now k s) k = Some e"
        using check_full [where s = s and k = k and rnd = rnd, OF Cons.prems(1) inwin full] kept by (cases rnd) simp_all
      from Cons.IH [of "snd (checkRateLimit rnd now k s)" e, OF this Cons.prems(2) rest] have
        "run (snd (checkRateLimit rnd now k s)) cs k
          = Some (e\<lparr>count := min maxRequests (count e + calls_of k cs)\<rparr>)" .
      moreover have "0 \<le> calls_of k cs" by (simp add: calls_of_def)
      ultimately show ?thesis
        using True c full Cons.prems(2) by (simp add: calls_of_Cons min_def)
    next
      case False
      then have lt: "count e < maxRequests" by simp
      let ?e = "e\<lparr>count := count e + 1\<rparr>"
      have st: "snd (checkRateLimit rnd now k s) k = Some ?e"
        using check_increment [where s = s and k = k and rnd = rnd, OF Cons.prems(1) inwin lt] by simp
      have le: "count ?e \<le> maxRequests" using lt by simp
      have rest': "\<forall>c\<in>set cs. fst (snd c) \<le> resetAt ?e" using rest by simp
      from Cons.IH [of "snd (checkRateLimit rnd now k s)" ?e, OF st le rest'] show ?thesis
        using True c by (simp add: calls_of_Cons add.assoc)
    qed
  qed
qed

lemma cleanup_inv: "store_inv s \<Longrightarrow> store_inv (cleanup now s)"
  by (auto simp: store_inv_def cleanup_def split: option.splits if_splits)

lemma check_inv:
  assumes "store_inv s"
  shows "store_inv (snd (checkRateLimit rnd now key s))"
proof -
  let ?s = "if rnd then cleanup now s else s"
  have inv: "store_inv ?s" using assms by (simp add: cleanup_inv)
  have new: "store_inv (?s(key \<mapsto> \<lparr>count = 1, resetAt = now + windowMs\<rparr>))"
    using inv by (auto simp: store_inv_def maxRequests_def)
  show ?thesis
  proof (cases "?s key")
    case None
    then show ?thesis using new by (simp add: checkRateLimit_def Let_def)
  next
    case (Some data)
    have "count data < maxRequests \<Longrightarrow>
        store_inv (?s(key \<mapsto> data\<lparr>count := count data + 1\<rparr>))"
      using inv by (auto simp: store_inv_def)
    then show ?thesis
      using Some new inv by (simp add: checkRateLimit_def Let_def)
  qed
qed

lemma run_inv: "store_inv s \<Longrightarrow> store_inv (run s cs)"
proof (induction cs arbitrary: s)
  case Nil
  then show ?case by simp
next
  case (Cons c cs)
  obtain rnd now k where "c = (rnd, now, k)" by (cases c) auto
  then show ?case using Cons by (simp add: check_inv)
qed

lemma check_denied_unchanged:
  assumes "\<not> allowed (fst (checkRateLimit rnd now key s))"
  shows "snd (checkRateLimit rnd now key s) key = s key"
  using assms
  by (auto simp: checkRateLimit_def Let_def cleanup_def split: option.splits if_splits)

lemma check_deleted_expired:
  assumes "s k = Some e" and "snd (checkRateLimit rnd now key s) k = None"
  shows "rnd \<and> now > resetAt e"
  using assms
  by (auto simp: checkRateLimit_def Let_def cleanup_def split: option.splits if_splits)

text \<open>
  The store after the first call for \<open>k\<close> at time \<open>t0\<close> (preceded by calls \<open>pre\<close> for other
  identifiers) and then calls \<open>cs\<close>, all made inside the window opened at \<open>t0\<close>.
\<close>

lemma run_first_window:
  assumes pre: "\<forall>c\<in>set pre. snd (snd c) \<noteq> k"
    and win: "\<forall>c\<in>set cs. fst (snd c) \<le> t0 + windowMs"
  shows "run Map.empty (pre @ (b0, t0, k) # cs) k =
    Some \<lparr>count = min maxRequests (1 + calls_of k cs), resetAt = t0 + windowMs\<rparr>"
proof -
  have none: "run Map.empty pre k = None"
    using pre by (simp add: run_absent)
  let ?s1 = "snd (checkRateLimit b0 t0 k (run Map.empty pre))"
  let ?e = "\<lparr>count = 1, resetAt = t0 + windowMs\<rparr>"
  have s1: "?s1 k = Some ?e"
    by (simp add: check_first [where s = "run Map.empty pre" and k = k, OF none])
  have le: "count ?e \<le> maxRequests" by (simp add: maxRequests_def)
  have win': "\<forall>c\<in>set cs. fst (snd c) \<le> resetAt ?e" using win by simp
  have "run ?s1 cs k = Some (?e\<lparr>count := min maxRequests (count ?e + calls_of k cs)\<rparr>)"
    by (rule run_window [of ?s1 k ?e, OF s1 le win'])
  then show ?thesis by (simp add: run_append)
qed

text \<open>
  C1. The rate limiter is a fixed-window counter. Start from the empty store; let the first
  call for identifier \<open>k\<close> happen at time \<open>t0\<close> (calls for other identifiers may precede
  it), and let the calls \<open>cs\<close> that follow, for any identifiers and with any outcome of the
  random clean-up test, all fall inside the window (\<open>now \<le> t0 + windowMs\<close>). Then
  \<^item> the first call is allowed, with \<open>remaining = maxRequests - 1\<close> and
    \<open>resetAt = t0 + windowMs\<close>;
  \<^item> if \<open>n\<close> calls for \<open>k\<close> were made so far and \<open>n < maxRequests\<close>, the next call for \<open>k\<close>
    inside the window (the \<open>(n+1)\<close>-th, so up to the \<open>maxRequests\<close>-th) is allowed, the
    count becomes \<open>n + 1\<close> and \<open>remaining = maxRequests - count\<close>;
  \<^item> once \<open>n \<ge> maxRequests\<close> (so for the \<open>(maxRequests+1)\<close>-th call), the next call for \<open>k\<close>
    inside the window is denied with \<open>remaining = 0\<close> and the existing \<open>resetAt\<close>;
  \<^item> a call for \<open>k\<close> with \<open>now > t0 + windowMs\<close> is allowed, the counter restarts at 1 and
    the new \<open>resetAt\<close> is \<open>now + windowMs\<close>.
\<close>

theorem C1_fixed_window:
  assumes pre: "\<forall>c\<in>set pre. snd (snd c) \<noteq> k"
    and win: "\<forall>c\<in>set cs. fst (snd c) \<le> t0 + windowMs"
  shows
    "fst (checkRateLimit b0 t0 k (run Map.empty pre)) =
        \<lparr>allowed = True, remaining = maxRequests - 1, res_resetAt = t0 + windowMs\<rparr>
     \<and> (t \<le> t0 + windowMs \<and> 1 + calls_of k cs < maxRequests \<longrightarrow>
          fst (checkRateLimit b t k (run Map.empty (pre @ (b0, t0, k) # cs))) =
            \<lparr>allowed = True, remaining = maxRequests - (1 + calls_of k cs + 1),
              res_resetAt = t0 + windowMs\<rparr>
          \<and> snd (checkRateLimit b t k (run Map.empty (pre @ (b0, t0, k) # cs))) k =
            Some \<lparr>count = 1 + calls_of k cs + 1, resetAt = t0 + windowMs\<rparr>)
     \<and> (t \<le> t0 + windowMs \<and> 1 + calls_of k cs \<ge> maxRequests \<longrightarrow>
          fst (checkRateLimit b t k (run Map.empty (pre @ (b0, t0, k) # cs))) =
            \<lparr>allowed = False, remaining = 0, res_resetAt = t0 + windowMs\<rparr>
          \<and> snd (checkRateLimit b t k (run Map.empty (pre @ (b0, t0, k) # cs))) k =
            Some \<lparr>count = maxRequests, resetAt = t0 + windowMs\<rparr>)
     \<and> (t > t0 + windowMs \<longrightarrow>
          fst (checkRateLimit b t k (run Map.empty (pre @ (b0, t0, k) # cs))) =
            \<lparr>allowed = True, remaining = maxRequests - 1, res_resetAt = t + windowMs\<rparr>
          \<and> snd (checkRateLimit b t k (run Map.empty (pre @ (b0, t0, k) # cs))) k =
            Some \<lparr>count = 1, resetAt = t + windowMs\<rparr>)"
proof -
  let ?n = "1 + calls_of k cs"
  let ?s = "run Map.empty (pre @ (b0, t0, k) # cs)"
  let ?e = "\<lparr>count = min maxRequests ?n, resetAt = t0 + windowMs\<rparr>"
  have none: "run Map.empty pre k = None"
    using pre by (simp add: run_absent)
  have first: "fst (checkRateLimit b0 t0 k (run Map.empty pre)) =
      \<lparr>allowed = True, remaining = maxRequests - 1, res_resetAt = t0 + windowMs\<rparr>"
    by (simp add: check_first [where s = "run Map.empty pre" and k = k, OF none])
  have sk: "?s k = Some ?e"
    by (rule run_first_window [OF pre win])
  have incr: "fst (checkRateLimit b t k ?s) =
        \<lparr>allowed = True, remaining = maxRequests - (?n + 1), res_resetAt = t0 + windowMs\<rparr>
      \<and> snd (checkRateLimit b t k ?s) k = Some \<lparr>count = ?n + 1, resetAt = t0 + windowMs\<rparr>"
    if "t \<le> t0 + windowMs" and "?n < maxRequests"
  proof -
    have a: "\<not> t > resetAt ?e" using that by simp
    have c: "count ?e < maxRequests" using that by simp
    show ?thesis
      using check_increment [where s = ?s and k = k and rnd = b, OF sk a c] that
      by (simp add: min_def)
  qed
  have deny: "fst (checkRateLimit b t k ?s) =
        \<lparr>allowed = False, remaining = 0, res_resetAt = t0 + windowMs\<rparr>
      \<and> snd (checkRateLimit b t k ?s) k = Some \<lparr>count = maxRequests, resetAt = t0 + windowMs\<rparr>"
    if "t \<le> t0 + windowMs" and "?n \<ge> maxRequests"
  proof -
    have a: "\<not> t > resetAt ?e" using that by simp
    have c: "count ?e \<ge> maxRequests" using that by simp
    have "(if b then cleanup t ?s else ?s) k = Some ?e"
      using sk a by (simp add: cleanup_keeps)
    then show ?thesis
      using check_full [where s = ?s and k = k and rnd = b, OF sk a c] that
      by (simp add: min_def)
  qed
  have restart: "fst (checkRateLimit b t k ?s) =
        \<lparr>allowed = True, remaining = maxRequests - 1, res_resetAt = t + windowMs\<rparr>
      \<and> snd (checkRateLimit b t k ?s) k = Some \<lparr>count = 1, resetAt = t + windowMs\<rparr>"
    if "t > t0 + windowMs"
  proof -
    have a: "t > resetAt ?e" using that by simp
    show ?thesis
      using check_expired [where s = ?s and k = k and rnd = b, OF sk a] by simp
  qed
  from first incr deny restart show ?thesis by blast
qed

text \<open>
  A history at which every part of C1 is exercised: identifier \<open>a\<close> first calls at time 1000
  after a call of \<open>b\<close>; its 2nd call is allowed with 98 remaining; after 100 calls the 101st
  is denied; a call after the window restarts the counter.
\<close>

theorem C1_fixed_window_witness:
  "fst (checkRateLimit False 1000 ''a'' (run Map.empty [(True, 900, ''b'')])) =
      \<lparr>allowed = True, remaining = 99, res_resetAt = 61000\<rparr>
   \<and> fst (checkRateLimit True 2000 ''a''
        (run Map.empty ([(True, 900, ''b'')] @ (False, 1000, ''a'') # []))) =
      \<lparr>allowed = True, remaining = 98, res_resetAt = 61000\<rparr>
   \<and> fst (checkRateLimit True 61000 ''a''
        (run Map.empty ([(True, 900, ''b'')] @ (False, 1000, ''a'')
           # replicate 99 (True, 2000, ''a'')))) =
      \<lparr>allowed = False, remaining = 0, res_resetAt = 61000\<rparr>
   \<and> fst (checkRateLimit True 61001 ''a''
        (run Map.empty ([(True, 900, ''b'')] @ (False, 1000, ''a'')
           # replicate 99 (True, 2000, ''a'')))) =
      \<lparr>allowed = True, remaining = 99, res_resetAt = 121001\<rparr>"
  using
    C1_fixed_window [of "[(True, 900, ''b'')]" "''a''" "[]" 1000 False 2000 True]
    C1_fixed_window [of "[(True, 900, ''b'')]" "''a''" "replicate 99 (True, 2000, ''a'')"
      1000 False 61000 True]
    C1_fixed_window [of "[(True, 900, ''b'')]" "''a''" "replicate 99 (True, 2000, ''a'')"
      1000 False 61001 True]
  by (simp add: calls_of_def maxRequests_def windowMs_def)

text \<open>
  C4. The store invariant. Every call of \<open>checkRateLimit\<close> preserves "no count exceeds
  \<open>maxRequests\<close>", so the invariant holds of every store reached from the empty one; a call
  that returns not-allowed leaves that identifier's entry (count and \<open>resetAt\<close>) as it was;
  and an entry that is gone after a call was deleted by the clean-up, which ran with
  \<open>now > resetAt\<close> for it: an entry still inside its window (\<open>now \<le> resetAt\<close>) is never
  deleted.
\<close>

theorem C4_store_invariant:
  "(store_inv s \<longrightarrow> store_inv (snd (checkRateLimit rnd now key s)))
   \<and> store_inv (run Map.empty cs)
   \<and> (\<not> allowed (fst (checkRateLimit rnd now key s)) \<longrightarrow>
        snd (checkRateLimit rnd now key s) key = s key)
   \<and> (\<forall>k e. s k = Some e \<and> snd (checkRateLimit rnd now key s) k = None \<longrightarrow>
        rnd \<and> now > resetAt e)
   \<and> (\<forall>k e. s k = Some e \<and> now \<le> resetAt e \<longrightarrow> cleanup now s k = Some e)"
proof -
  have "store_inv Map.empty" by (simp add: store_inv_def)
  then have "store_inv (run Map.empty cs)" by (rule run_inv)
  moreover have "\<forall>k e. s k = Some e \<and> now \<le> resetAt e \<longrightarrow> cleanup now s k = Some e"
    by (simp add: cleanup_def)
  ultimately show ?thesis
    using check_inv [of s rnd now key] check_denied_unchanged [of rnd now key s]
      check_deleted_expired [of s _ _ rnd now key]
    by blast
qed

text \<open>
  At a store where \<open>a\<close> is at its limit inside its window and \<open>b\<close>'s window has expired, a
  call for \<open>a\<close> with the clean-up running is denied, leaves \<open>a\<close>'s entry alone and deletes
  \<open>b\<close>'s.
\<close>

theorem C4_store_invariant_witness:
  "store_inv [''a'' \<mapsto> \<lparr>count = 100, resetAt = 5000\<rparr>, ''b'' \<mapsto> \<lparr>count = 3, resetAt = 10\<rparr>]
   \<and> store_inv (snd (checkRateLimit True 4000 ''a''
        [''a'' \<mapsto> \<lparr>count = 100, resetAt = 5000\<rparr>, ''b'' \<mapsto> \<lparr>count = 3, resetAt = 10\<rparr>]))
   \<and> \<not> allowed (fst (checkRateLimit True 4000 ''a''
        [''a'' \<mapsto> \<lparr>count = 100, resetAt = 5000\<rparr>, ''b'' \<mapsto> \<lparr>count = 3, resetAt = 10\<rparr>]))
   \<and> snd (checkRateLimit True 4000 ''a''
        [''a'' \<mapsto> \<lparr>count = 100, resetAt = 5000\<rparr>, ''b'' \<mapsto> \<lparr>count = 3, resetAt = 10\<rparr>]) ''a''
      = Some \<lparr>count = 100, resetAt = 5000\<rparr>
   \<and> snd (checkRateLimit True 4000 ''a''
        [''a'' \<mapsto> \<lparr>count = 100, resetAt = 5000\<rparr>, ''b'' \<mapsto> \<lparr>count = 3, resetAt = 10\<rparr>]) ''b''
      = None
   \<and> (4000::int) > resetAt \<lparr>count = 3, resetAt = 10\<rparr>"
proof -
  let ?s = "[''a'' \<mapsto> \<lparr>count = 100, resetAt = 5000\<rparr>, ''b'' \<mapsto> \<lparr>count = 3, resetAt = 10\<rparr>]"
  have inv: "store_inv ?s"
    by (auto simp: store_inv_def maxRequests_def split: if_splits)
  have res: "checkRateLimit True 4000 ''a'' ?s =
      (\<lparr>allowed = False, remaining = 0, res_resetAt = 5000\<rparr>, cleanup 4000 ?s)"
    by (simp add: checkRateLimit_def cleanup_def maxRequests_def)
  have b: "cleanup 4000 ?s ''b'' = None" and a: "?s ''a'' = Some \<lparr>count = 100, resetAt = 5000\<rparr>"
    by (simp_all add: cleanup_def)
  from C4_store_invariant [of ?s True 4000 "''a''" "[]"] inv res a b
  show ?thesis by simp
qed

subsection \<open>Origin validation\<close>

lemma startsWith_prefix: "startsWith s p = prefix p s"
  by (induction s p rule: startsWith.induct) auto

lemma header_or_empty: "header_or h [] = (case h of None \<Rightarrow> [] | Some v \<Rightarrow> v)"
  by (simp add: header_or_def str_or_def split: option.splits)

lemma prefix_header_or:
  assumes "a \<noteq> []"
  shows "prefix a (header_or h []) \<longleftrightarrow> (\<exists>v. h = Some v \<and> prefix a v)"
  using assms by (cases h) (simp_all add: header_or_empty)

text \<open>
  C3. The origin check allows the request if and only if the value of the Origin header or
  the value of the Referer header has a whitelisted origin string as a prefix; with both
  headers absent the request is not allowed. This holds provided every whitelisted origin
  string is non-empty. (A header is absent when \<^verbatim>\<open>headers.get\<close> gives \<^verbatim>\<open>null\<close>: \<open>None\<close>.)
\<close>

theorem C3_origin_check:
  assumes "\<forall>a\<in>set (origins appConfig). a \<noteq> []"
  shows "(isAllowed appConfig originHeader refererHeader \<longleftrightarrow>
            (\<exists>a\<in>set (origins appConfig).
               (\<exists>v. originHeader = Some v \<and> prefix a v)
             \<or> (\<exists>v. refererHeader = Some v \<and> prefix a v)))
         \<and> \<not> isAllowed appConfig None None"
proof -
  have "isAllowed appConfig oh rh \<longleftrightarrow>
      (\<exists>a\<in>set (origins appConfig).
         (\<exists>v. oh = Some v \<and> prefix a v) \<or> (\<exists>v. rh = Some v \<and> prefix a v))" for oh rh
  proof -
    have "isAllowed appConfig oh rh \<longleftrightarrow>
        (\<exists>a\<in>set (origins appConfig). prefix a (header_or oh []) \<or> prefix a (header_or rh []))"
      by (simp add: isAllowed_def list_ex_iff startsWith_prefix)
    also have "\<dots> \<longleftrightarrow> (\<exists>a\<in>set (origins appConfig).
         (\<exists>v. oh = Some v \<and> prefix a v) \<or> (\<exists>v. rh = Some v \<and> prefix a v))"
      using assms by (intro bex_cong refl) (simp add: prefix_header_or)
    finally show ?thesis .
  qed
  then show ?thesis by simp
qed

text \<open>
  With the whitelist of \<^verbatim>\<open>myblog\<close>: a page under the whitelisted origin is allowed through
  either header, another origin is not, and no header at all is not.
\<close>

theorem C3_origin_check_witness:
  "isAllowed \<lparr>origins = [''http://localhost:5500''], apis = []\<rparr>
      (Some ''http://localhost:5500'') None
   \<and> isAllowed \<lparr>origins = [''http://localhost:5500''], apis = []\<rparr>
      None (Some ''http://localhost:5500/page'')
   \<and> \<not> isAllowed \<lparr>origins = [''http://localhost:5500''], apis = []\<rparr>
      (Some ''https://evil.com'') None
   \<and> \<not> isAllowed \<lparr>origins = [''http://localhost:5500''], apis = []\<rparr> None None"
  using
    C3_origin_check [of "\<lparr>origins = [''http://localhost:5500''], apis = []\<rparr>"
      "Some ''http://localhost:5500''" None]
    C3_origin_check [of "\<lparr>origins = [''http://localhost:5500''], apis = []\<rparr>"
      None "Some ''http://localhost:5500/page''"]
    C3_origin_check [of "\<lparr>origins = [''http://localhost:5500''], apis = []\<rparr>"
      "Some ''https://evil.com''" None]
  by simp

subsection \<open>Tables\<close>

lemma map_of_assoc_set: "map_of (assoc_set k v kvs) = (map_of kvs)(k \<mapsto> v)"
  by (induction kvs) auto

lemma map_fst_assoc_set:
  "map fst (assoc_set k v kvs) =
     (if k \<in> set (map fst kvs) then map fst kvs else map fst kvs @ [k])"
  by (induction kvs) force+

lemma distinct_assoc_set:
  "distinct (map fst kvs) \<Longrightarrow> distinct (map fst (assoc_set k v kvs))"
  by (simp add: map_fst_assoc_set)

lemma map_of_filter_ne:
  "map_of (filter (\<lambda>p. fst p \<noteq> k) ps) x = (if x = k then None else map_of ps x)"
  by (induction ps) auto

lemma map_of_sp_set: "map_of (sp_set k v ps) x = ((map_of ps)(k \<mapsto> v)) x"
  by (induction ps) (auto simp: map_of_filter_ne)

lemma set_sp_set: "set (sp_set k v ps) \<subseteq> insert (k, v) (set ps)"
  by (induction ps) (auto split: if_splits)

lemma set_copy_params:
  "set (copy_params ps cq q) \<subseteq>
     set q \<union> {(p, v). p \<in> set ps \<and> map_of cq p = Some v \<and> v \<noteq> []}"
proof (induction ps arbitrary: q)
  case Nil
  then show ?case by simp
next
  case (Cons p ps)
  let ?q = "case map_of cq p of None \<Rightarrow> q
            | Some v \<Rightarrow> if v \<noteq> [] then sp_set p v q else q"
  have step: "set ?q \<subseteq> set q \<union> {(p', v). p' = p \<and> map_of cq p' = Some v \<and> v \<noteq> []}"
    using set_sp_set [of p _ q] by (auto split: option.splits)
  have "set (copy_params (p # ps) cq q) = set (copy_params ps cq ?q)" by simp
  also have "\<dots> \<subseteq> set ?q \<union> {(p', v). p' \<in> set ps \<and> map_of cq p' = Some v \<and> v \<noteq> []}"
    by (rule Cons.IH)
  also have "\<dots> \<subseteq> set q \<union> {(p', v). p' \<in> set (p # ps) \<and> map_of cq p' = Some v \<and> v \<noteq> []}"
    using step by auto
  finally show ?case .
qed

lemma map_of_copy_params:
  "map_of (copy_params ps cq q) k =
     (if k \<in> set ps \<and> (\<exists>v. map_of cq k = Some v \<and> v \<noteq> []) then map_of cq k
      else map_of q k)"
proof (induction ps arbitrary: q)
  case Nil
  then show ?case by simp
next
  case (Cons p ps)
  show ?case
    by (cases "map_of cq p") (auto simp: Cons.IH map_of_sp_set)
qed


lemma copy_fields_throws:
  "own_props cb = None \<Longrightarrow> fs \<noteq> [] \<Longrightarrow> copy_fields fs cb ab = Inl TypeError"
  by (cases fs) simp_all

lemma copy_fields_distinct:
  assumes "distinct (map fst ab)" and "copy_fields fs cb ab = Inr ab'"
  shows "distinct (map fst ab')"
  using assms
proof (induction fs arbitrary: ab)
  case Nil
  then show ?case by simp
next
  case (Cons g fs)
  from Cons.prems(2) obtain props where props: "own_props cb = Some props"
    by (cases "own_props cb") simp_all
  let ?ab = "case map_of props g of None \<Rightarrow> ab
             | Some w \<Rightarrow> if g = ''__proto__'' then ab else assoc_set g w ab"
  have d: "distinct (map fst ?ab)"
    using Cons.prems(1) by (cases "map_of props g") (simp_all add: distinct_assoc_set)
  from Cons.prems(2) props have "copy_fields fs cb ?ab = Inr ab'" by simp
  from Cons.IH [OF d this] show ?case .
qed

text \<open>
  The order of serialization moves fields and changes none: the same pairs, and for a table
  without repeated names the same look-ups. A table without array-index names is left as
  it is.
\<close>

lemma set_js_order: "set (js_order kvs) = set kvs"
  by (auto simp: js_order_def)

lemma distinct_js_order:
  assumes "distinct (map fst kvs)"
  shows "distinct (map fst (js_order kvs))"
proof -
  from assms have d: "distinct kvs" and i: "inj_on fst (set kvs)"
    by (simp_all add: distinct_map)
  have "distinct (js_order kvs)"
    using d by (auto simp: js_order_def)
  moreover have "inj_on fst (set (js_order kvs))"
    using i by (simp add: set_js_order)
  ultimately show ?thesis by (simp add: distinct_map)
qed

lemma map_of_js_order:
  assumes "distinct (map fst kvs)"
  shows "map_of (js_order kvs) = map_of kvs"
  using map_of_inject_set [OF distinct_js_order [OF assms] assms] set_js_order [of kvs]
  by simp

lemma not_index_key: "\<not> is_index ''key''"
  by (simp add: is_index_def parse_nat_def digit_val_def)

lemma js_order_key: "js_order [(''key'', v)] = [(''key'', v)]"
  by (simp add: js_order_def not_index_key)



subsection \<open>The stages of the pipeline\<close>

lemma finish_simps:
  "o_response (finish e r st) = r" "o_store (finish e r st) = st"
  "o_upstream (finish e r st) = None" "o_cache_put (finish e r st) = None"
  "o_exit (finish e r st) = e"
  by (simp_all add: finish_def)

lemma fetch_preflight:
  "req_method request = ''OPTIONS'' \<Longrightarrow>
   fetch cfg env pf request st = finish Preflight (handleCORS request) st"
  by (simp add: fetch_def)

lemma fetch_no_route:
  "req_method request \<noteq> ''OPTIONS'' \<Longrightarrow> route cfg request = Inl (NotFound e r) \<Longrightarrow>
   fetch cfg env pf request st = finish e r st"
  by (simp add: fetch_def)

text \<open>
  A route through an inherited name ends in one of the worker's own error responses: the
  500s, or the 403 and the 429 when the API name is the inherited one.
\<close>

lemma fetch_inherited:
  assumes "req_method request \<noteq> ''OPTIONS''" and "route cfg request = Inl f"
    and "f = InheritedApp \<or> (\<exists>appName appConfig. f = InheritedApi appName appConfig)"
  shows "\<exists>e r st'. fetch cfg env pf request st = finish e r st'
           \<and> ((e \<in> {ConfigurationError, InternalError} \<and> (\<exists>data. r = jsonResponse data 500))
               \<or> (e = Forbidden \<and> (\<exists>data. r = jsonResponse data 403))
               \<or> (e = RateLimited
                   \<and> (\<exists>rateLimit. r = tooManyRequests rateLimit (now_429 pf)
                          (header_or (req_headers request ''Origin'') []))))"
proof -
  from assms(3) show ?thesis
  proof
    assume "f = InheritedApp"
    with assms(1,2) have "fetch cfg env pf request st =
        finish InternalError
          (jsonResponse (JObj
             [(''error'', JStr ''Internal server error''),
              (''message'', JStr (error_message pf))]) 500) st"
      by (simp add: fetch_def)
    then show ?thesis by blast
  next
    assume "\<exists>appName appConfig. f = InheritedApi appName appConfig"
    then obtain appName appConfig where f: "f = InheritedApi appName appConfig" by blast
    obtain rateLimit st' where
      rl: "checkRateLimit (random_lt pf) (now_check pf) (rateLimitKey request appName) st
             = (rateLimit, st')"
      by (cases "checkRateLimit (random_lt pf) (now_check pf)
                   (rateLimitKey request appName) st") auto
    let ?origin = "header_or (req_headers request ''Origin'') []"
    consider
        (forbidden) "fetch cfg env pf request st =
          finish Forbidden (jsonResponse (JObj [(''error'', JStr ''Forbidden'')]) 403) st"
      | (limited) "fetch cfg env pf request st =
          finish RateLimited (tooManyRequests rateLimit (now_429 pf) ?origin) st'"
      | (nosecret) "fetch cfg env pf request st =
          finish ConfigurationError
            (jsonResponse (JObj [(''error'', JStr ''Configuration error'')]) 500) st'"
      | (throws) "fetch cfg env pf request st =
          finish InternalError
            (jsonResponse (JObj
               [(''error'', JStr ''Internal server error''),
                (''message'', JStr (error_message pf))]) 500) st'"
    proof (cases "isAllowed appConfig (req_headers request ''Origin'')
                    (req_headers request ''Referer'')")
      case False
      with assms(1,2) f show ?thesis
        by (intro forbidden) (simp add: fetch_def admit_def Let_def)
    next
      case ok: True
      show ?thesis
      proof (cases "allowed rateLimit")
        case False
        with assms(1,2) f rl ok show ?thesis
          by (intro limited) (simp add: fetch_def admit_def Let_def)
      next
        case True
        with assms(1,2) f rl ok have fu: "fetch cfg env pf request st = forward_undefined env pf st'"
          by (simp add: fetch_def admit_def Let_def)
        show ?thesis
        proof (cases "env ''undefined'' = None \<or> env ''undefined'' = Some []")
          case True
          then show ?thesis
            by (intro nosecret) (auto simp: fu forward_undefined_def)
        next
          case False
          then show ?thesis
            by (intro throws) (auto simp: fu forward_undefined_def)
        qed
      qed
    qed
    then show ?thesis
    proof cases
      case forbidden
      then show ?thesis by blast
    next
      case limited
      then show ?thesis by blast
    next
      case nosecret
      then show ?thesis by blast
    next
      case throws
      then show ?thesis by blast
    qed
  qed
qed

lemma fetch_forbidden:
  "req_method request \<noteq> ''OPTIONS'' \<Longrightarrow>
   route cfg request = Inr (appName, apiName, appConfig, apiConfig) \<Longrightarrow>
   \<not> isAllowed appConfig (req_headers request ''Origin'') (req_headers request ''Referer'') \<Longrightarrow>
   fetch cfg env pf request st =
     finish Forbidden (jsonResponse (JObj [(''error'', JStr ''Forbidden'')]) 403) st"
  by (simp add: fetch_def admit_def Let_def)

lemma fetch_rate_limited:
  "req_method request \<noteq> ''OPTIONS'' \<Longrightarrow>
   route cfg request = Inr (appName, apiName, appConfig, apiConfig) \<Longrightarrow>
   isAllowed appConfig (req_headers request ''Origin'') (req_headers request ''Referer'') \<Longrightarrow>
   checkRateLimit (random_lt pf) (now_check pf) (rateLimitKey request appName) st
     = (rateLimit, st') \<Longrightarrow>
   \<not> allowed rateLimit \<Longrightarrow>
   fetch cfg env pf request st =
     finish RateLimited
       (tooManyRequests rateLimit (now_429 pf) (header_or (req_headers request ''Origin'') []))
       st'"
  by (simp add: fetch_def admit_def Let_def)

lemma fetch_admitted:
  "req_method request \<noteq> ''OPTIONS'' \<Longrightarrow>
   route cfg request = Inr (appName, apiName, appConfig, apiConfig) \<Longrightarrow>
   isAllowed appConfig (req_headers request ''Origin'') (req_headers request ''Referer'') \<Longrightarrow>
   checkRateLimit (random_lt pf) (now_check pf) (rateLimitKey request appName) st
     = (rateLimit, st') \<Longrightarrow>
   allowed rateLimit \<Longrightarrow>
   fetch cfg env pf request st =
     serve env pf request appName apiName apiConfig
       (header_or (req_headers request ''Origin'') []) rateLimit st'"
  by (simp add: fetch_def admit_def Let_def)

text \<open>Every invocation leaves \<^verbatim>\<open>fetch\<close> through one of six doors.\<close>

lemma fetch_cases [case_names Preflight NoRoute Inherited Forbidden Limited Admitted]:
  obtains
    "req_method request = ''OPTIONS''"
    "fetch cfg env pf request st = finish Preflight (handleCORS request) st"
  | e r where
    "req_method request \<noteq> ''OPTIONS''"
    "route cfg request = Inl (NotFound e r)"
    "fetch cfg env pf request st = finish e r st"
  | f e r st' where
    "req_method request \<noteq> ''OPTIONS''"
    "route cfg request = Inl f"
    "fetch cfg env pf request st = finish e r st'"
    "(e \<in> {ConfigurationError, InternalError} \<and> (\<exists>data. r = jsonResponse data 500))
     \<or> (e = Forbidden \<and> (\<exists>data. r = jsonResponse data 403))
     \<or> (e = RateLimited
         \<and> (\<exists>rateLimit. r = tooManyRequests rateLimit (now_429 pf)
                (header_or (req_headers request ''Origin'') [])))"
  | appName apiName appConfig apiConfig where
    "req_method request \<noteq> ''OPTIONS''"
    "route cfg request = Inr (appName, apiName, appConfig, apiConfig)"
    "\<not> isAllowed appConfig (req_headers request ''Origin'') (req_headers request ''Referer'')"
    "fetch cfg env pf request st =
       finish Forbidden (jsonResponse (JObj [(''error'', JStr ''Forbidden'')]) 403) st"
  | appName apiName appConfig apiConfig rateLimit st' where
    "req_method request \<noteq> ''OPTIONS''"
    "route cfg request = Inr (appName, apiName, appConfig, apiConfig)"
    "isAllowed appConfig (req_headers request ''Origin'') (req_headers request ''Referer'')"
    "checkRateLimit (random_lt pf) (now_check pf) (rateLimitKey request appName) st
       = (rateLimit, st')"
    "\<not> allowed rateLimit"
    "fetch cfg env pf request st =
       finish RateLimited
         (tooManyRequests rateLimit (now_429 pf) (header_or (req_headers request ''Origin'') []))
         st'"
  | appName apiName appConfig apiConfig rateLimit st' where
    "req_method request \<noteq> ''OPTIONS''"
    "route cfg request = Inr (appName, apiName, appConfig, apiConfig)"
    "isAllowed appConfig (req_headers request ''Origin'') (req_headers request ''Referer'')"
    "checkRateLimit (random_lt pf) (now_check pf) (rateLimitKey request appName) st
       = (rateLimit, st')"
    "allowed rateLimit"
    "fetch cfg env pf request st =
       serve env pf request appName apiName apiConfig
         (header_or (req_headers request ''Origin'') []) rateLimit st'"
proof (cases "req_method request = ''OPTIONS''")
  case True
  then show ?thesis using that(1) fetch_preflight by blast
next
  case notopt: False
  show ?thesis
  proof (cases "route cfg request")
    case (Inl f)
    show ?thesis
    proof (cases "\<exists>e r. f = NotFound e r")
      case True
      then obtain e r where "f = NotFound e r" by blast
      with Inl notopt show ?thesis using that(2) fetch_no_route by blast
    next
      case False
      then have "f = InheritedApp \<or> (\<exists>appName appConfig. f = InheritedApi appName appConfig)"
        by (cases f) auto
      from fetch_inherited [OF notopt Inl this, of env pf st] obtain e r st' where
        "fetch cfg env pf request st = finish e r st'"
        "(e \<in> {ConfigurationError, InternalError} \<and> (\<exists>data. r = jsonResponse data 500))
         \<or> (e = Forbidden \<and> (\<exists>data. r = jsonResponse data 403))
         \<or> (e = RateLimited
             \<and> (\<exists>rateLimit. r = tooManyRequests rateLimit (now_429 pf)
                    (header_or (req_headers request ''Origin'') [])))"
        by blast
      then show ?thesis using that(3) [OF notopt Inl] by blast
    qed
  next
    case (Inr t)
    obtain appName apiName appConfig apiConfig where
      t: "t = (appName, apiName, appConfig, apiConfig)" by (cases t) auto
    from Inr t have rt: "route cfg request = Inr (appName, apiName, appConfig, apiConfig)"
      by simp
    show ?thesis
    proof (cases "isAllowed appConfig (req_headers request ''Origin'')
                    (req_headers request ''Referer'')")
      case False
      then show ?thesis using that(4) fetch_forbidden notopt rt by blast
    next
      case ok: True
      obtain rateLimit st' where
        rl: "checkRateLimit (random_lt pf) (now_check pf) (rateLimitKey request appName) st
               = (rateLimit, st')"
        by (cases "checkRateLimit (random_lt pf) (now_check pf)
                     (rateLimitKey request appName) st") auto
      show ?thesis
      proof (cases "allowed rateLimit")
        case False
        then show ?thesis using that(5) fetch_rate_limited notopt rt ok rl by blast
      next
        case True
        then show ?thesis using that(6) fetch_admitted notopt rt ok rl by blast
      qed
    qed
  qed
qed

lemma route_Inl_cases:
  assumes "route cfg request = Inl (NotFound e r)"
  shows "e \<in> {InvalidRoute, UnknownApp, UnknownApi} \<and> (\<exists>data. r = jsonResponse data 404)"
  using assms
  by (auto simp: route_def split: list.splits js_prop.splits)

lemma serve_hit:
  "cache_enabled apiConfig \<Longrightarrow> cache_match pf = Some c \<Longrightarrow>
   serve env pf request appName apiName apiConfig origin rateLimit st =
     finish CacheHit
       (addCORSHeaders
          (c\<lparr>headers :=
             assoc_set ''X-RateLimit-Reset'' (show_int (res_resetAt rateLimit))
               (assoc_set ''X-RateLimit-Remaining'' (show_int (remaining rateLimit))
                 (assoc_set ''X-RateLimit-Limit'' (show_int maxRequests)
                   (assoc_set ''X-Cache'' ''HIT'' (headers c))))\<rparr>)
          origin)
       st"
  by (simp add: serve_def)

lemma serve_miss:
  "\<not> cache_enabled apiConfig \<or> cache_match pf = None \<Longrightarrow>
   serve env pf request appName apiName apiConfig origin rateLimit st =
     forward env pf request appName apiName apiConfig origin rateLimit st"
  by (auto simp: serve_def)

lemma serve_cases [case_names Hit Miss]:
  obtains c where
    "cache_enabled apiConfig" "cache_match pf = Some c"
    "serve env pf request appName apiName apiConfig origin rateLimit st =
       finish CacheHit
         (addCORSHeaders
            (c\<lparr>headers :=
               assoc_set ''X-RateLimit-Reset'' (show_int (res_resetAt rateLimit))
                 (assoc_set ''X-RateLimit-Remaining'' (show_int (remaining rateLimit))
                   (assoc_set ''X-RateLimit-Limit'' (show_int maxRequests)
                     (assoc_set ''X-Cache'' ''HIT'' (headers c))))\<rparr>)
            origin)
         st"
  | "\<not> cache_enabled apiConfig \<or> cache_match pf = None"
    "serve env pf request appName apiName apiConfig origin rateLimit st =
       forward env pf request appName apiName apiConfig origin rateLimit st"
proof (cases "cache_enabled apiConfig \<and> cache_match pf \<noteq> None")
  case True
  then obtain c where ce: "cache_enabled apiConfig" and c: "cache_match pf = Some c" by auto
  show ?thesis
    by (rule that(1) [OF ce c serve_hit [OF ce c]])
next
  case False
  then show ?thesis using that(2) serve_miss by blast
qed

text \<open>The outbound request that \<open>forward\<close> hands to the upstream.\<close>

lemma forward_cases
  [case_names NoSecret Throws Abort Error Unstored Responded]:
  obtains
    "env (api_secret apiConfig) = None \<or> env (api_secret apiConfig) = Some []"
    "forward env pf request appName apiName apiConfig origin rateLimit st =
       finish ConfigurationError
         (jsonResponse (JObj [(''error'', JStr ''Configuration error'')]) 500) st"
  | secretValue e where
    "env (api_secret apiConfig) = Some secretValue" "secretValue \<noteq> []"
    "build_body apiConfig secretValue (req_json request) = Inl e"
    "forward env pf request appName apiName apiConfig origin rateLimit st =
       finish InternalError
         (jsonResponse (JObj
            [(''error'', JStr ''Internal server error''),
             (''message'', JStr (error_message pf))]) 500) st"
  | secretValue proxyBody proxyRequest where
    "env (api_secret apiConfig) = Some secretValue" "secretValue \<noteq> []"
    "build_body apiConfig secretValue (req_json request) = Inr proxyBody"
    "proxyRequest =
       \<lparr>out_url = build_url apiConfig secretValue (u_searchParams (req_url request)),
        out_method = api_method apiConfig,
        out_headers = [(''Content-Type'', ''application/json''),
                       (''User-Agent'', ''StatEnv-Proxy/1.0'')],
        out_body = proxyBody\<rparr>"
    "upstream pf proxyRequest = AbortError"
    "forward env pf request appName apiName apiConfig origin rateLimit st =
       (finish GatewayTimeout
          (jsonResponse (JObj
             [(''error'', JStr ''Gateway Timeout''),
              (''message'', JStr ''External API took too long to respond'')]) 504) st)
       \<lparr>o_upstream := Some proxyRequest\<rparr>"
  | secretValue proxyBody proxyRequest where
    "env (api_secret apiConfig) = Some secretValue" "secretValue \<noteq> []"
    "build_body apiConfig secretValue (req_json request) = Inr proxyBody"
    "proxyRequest =
       \<lparr>out_url = build_url apiConfig secretValue (u_searchParams (req_url request)),
        out_method = api_method apiConfig,
        out_headers = [(''Content-Type'', ''application/json''),
                       (''User-Agent'', ''StatEnv-Proxy/1.0'')],
        out_body = proxyBody\<rparr>"
    "upstream pf proxyRequest = OtherError"
    "forward env pf request appName apiName apiConfig origin rateLimit st =
       (finish BadGateway
          (jsonResponse (JObj
             [(''error'', JStr ''Bad Gateway''),
              (''message'', JStr ''Failed to reach external API'')]) 502) st)
       \<lparr>o_upstream := Some proxyRequest\<rparr>"
  | secretValue proxyBody proxyRequest apiResponse where
    "env (api_secret apiConfig) = Some secretValue" "secretValue \<noteq> []"
    "build_body apiConfig secretValue (req_json request) = Inr proxyBody"
    "proxyRequest =
       \<lparr>out_url = build_url apiConfig secretValue (u_searchParams (req_url request)),
        out_method = api_method apiConfig,
        out_headers = [(''Content-Type'', ''application/json''),
                       (''User-Agent'', ''StatEnv-Proxy/1.0'')],
        out_body = proxyBody\<rparr>"
    "upstream pf proxyRequest = Responded apiResponse"
    "cache_enabled apiConfig \<and> ar_ok apiResponse \<and> body_read apiConfig request"
    "forward env pf request appName apiName apiConfig origin rateLimit st =
       (finish BadGateway
          (jsonResponse (JObj
             [(''error'', JStr ''Bad Gateway''),
              (''message'', JStr ''Failed to reach external API'')]) 502) st)
       \<lparr>o_upstream := Some proxyRequest\<rparr>"
  | secretValue proxyBody proxyRequest apiResponse response where
    "env (api_secret apiConfig) = Some secretValue" "secretValue \<noteq> []"
    "build_body apiConfig secretValue (req_json request) = Inr proxyBody"
    "proxyRequest =
       \<lparr>out_url = build_url apiConfig secretValue (u_searchParams (req_url request)),
        out_method = api_method apiConfig,
        out_headers = [(''Content-Type'', ''application/json''),
                       (''User-Agent'', ''StatEnv-Proxy/1.0'')],
        out_body = proxyBody\<rparr>"
    "upstream pf proxyRequest = Responded apiResponse"
    "\<not> (cache_enabled apiConfig \<and> ar_ok apiResponse \<and> body_read apiConfig request)"
    "status response = ar_status apiResponse"
    "body response = TextBody (ar_text apiResponse)"
    "forward env pf request appName apiName apiConfig origin rateLimit st =
       \<lparr>o_response = addCORSHeaders response origin, o_store = st,
        o_upstream = Some proxyRequest,
        o_cache_put = (if cache_enabled apiConfig \<and> ar_ok apiResponse then Some response
                       else None),
        o_exit = Proxied\<rparr>"
proof (cases "env (api_secret apiConfig) = None \<or> env (api_secret apiConfig) = Some []")
  case True
  then show ?thesis using that(1) by (auto simp: forward_def)
next
  case False
  then obtain secretValue where
    sec: "env (api_secret apiConfig) = Some secretValue" "secretValue \<noteq> []" by auto
  show ?thesis
  proof (cases "build_body apiConfig secretValue (req_json request)")
    case (Inl e)
    then show ?thesis using that(2) [OF sec Inl] sec by (simp add: forward_def)
  next
    case (Inr proxyBody)
    define proxyRequest where "proxyRequest =
       \<lparr>out_url = build_url apiConfig secretValue (u_searchParams (req_url request)),
        out_method = api_method apiConfig,
        out_headers = [(''Content-Type'', ''application/json''),
                       (''User-Agent'', ''StatEnv-Proxy/1.0'')],
        out_body = proxyBody\<rparr>"
    show ?thesis
    proof (cases "upstream pf proxyRequest")
      case AbortError
      show ?thesis
        using that(3) [OF sec Inr proxyRequest_def AbortError] sec Inr AbortError
        by (simp add: forward_def proxyRequest_def)
    next
      case OtherError
      show ?thesis
        using that(4) [OF sec Inr proxyRequest_def OtherError] sec Inr OtherError
        by (simp add: forward_def proxyRequest_def)
    next
      case (Responded apiResponse)
      show ?thesis
      proof (cases "cache_enabled apiConfig \<and> ar_ok apiResponse \<and> body_read apiConfig request")
        case True
        show ?thesis
          using that(5) [OF sec Inr proxyRequest_def Responded True] sec Inr Responded True
          by (simp add: forward_def proxyRequest_def Let_def)
      next
        case False
        show ?thesis
        using that(6) [OF sec Inr proxyRequest_def Responded False, of
            "\<lparr>status = ar_status apiResponse,
              headers =
                [(''Content-Type'',
                    header_or (ar_content_type apiResponse) ''application/json''),
                 (''Cache-Control'',
                    (case api_cache apiConfig of
                       None \<Rightarrow> ''no-cache''
                     | Some n \<Rightarrow>
                         if n \<noteq> 0 then ''public, max-age='' @ show_int n
                         else ''no-cache'')),
                 (''X-StatEnv-App'', appName),
                 (''X-StatEnv-API'', apiName),
                 (''X-RateLimit-Limit'', show_int maxRequests),
                 (''X-RateLimit-Remaining'', show_int (remaining rateLimit)),
                 (''X-RateLimit-Reset'', show_int (res_resetAt rateLimit)),
                 (''X-Cache'', ''MISS'')],
              body = TextBody (ar_text apiResponse)\<rparr>"]
          sec Inr Responded
        by (simp add: forward_def proxyRequest_def Let_def if_not_P [OF False])
      qed
    qed
  qed
qed


text \<open>
  Every way out of \<^verbatim>\<open>fetch\<close>, with what was decided on the way and the outcome: the five
  early returns, the errors of a route through an inherited name, the cache hit, and the
  six ends of the forwarding.
\<close>

lemma fetch_exits
  [case_names Preflight NoRoute Inherited Forbidden Limited Hit NoSecret Throws Abort Error
    Unstored Responded]:
  obtains
    "req_method request = ''OPTIONS''"
    "fetch cfg env pf request st = finish Preflight (handleCORS request) st"
  | e data where
    "req_method request \<noteq> ''OPTIONS''"
    "e \<in> {InvalidRoute, UnknownApp, UnknownApi}"
    "route cfg request = Inl (NotFound e (jsonResponse data 404))"
    "fetch cfg env pf request st = finish e (jsonResponse data 404) st"
  | f e r st' where
    "req_method request \<noteq> ''OPTIONS''"
    "route cfg request = Inl f"
    "fetch cfg env pf request st = finish e r st'"
    "(e \<in> {ConfigurationError, InternalError} \<and> (\<exists>data. r = jsonResponse data 500))
     \<or> (e = Forbidden \<and> (\<exists>data. r = jsonResponse data 403))
     \<or> (e = RateLimited
         \<and> (\<exists>rateLimit. r = tooManyRequests rateLimit (now_429 pf)
                (header_or (req_headers request ''Origin'') [])))"
  | appName apiName appConfig apiConfig where
    "req_method request \<noteq> ''OPTIONS''"
    "route cfg request = Inr (appName, apiName, appConfig, apiConfig)"
    "\<not> isAllowed appConfig (req_headers request ''Origin'') (req_headers request ''Referer'')"
    "fetch cfg env pf request st =
       finish Forbidden (jsonResponse (JObj [(''error'', JStr ''Forbidden'')]) 403) st"
  | appName apiName appConfig apiConfig rateLimit st' where
    "req_method request \<noteq> ''OPTIONS''"
    "route cfg request = Inr (appName, apiName, appConfig, apiConfig)"
    "isAllowed appConfig (req_headers request ''Origin'') (req_headers request ''Referer'')"
    "checkRateLimit (random_lt pf) (now_check pf) (rateLimitKey request appName) st
       = (rateLimit, st')"
    "\<not> allowed rateLimit"
    "fetch cfg env pf request st =
       finish RateLimited
         (tooManyRequests rateLimit (now_429 pf) (header_or (req_headers request ''Origin'') []))
         st'"
  | appName apiName appConfig apiConfig rateLimit st' c where
    "admitted cfg pf request st appName apiName appConfig apiConfig rateLimit st'"
    "cache_enabled apiConfig" "cache_match pf = Some c"
    "fetch cfg env pf request st =
       finish CacheHit
         (addCORSHeaders
            (c\<lparr>headers :=
               assoc_set ''X-RateLimit-Reset'' (show_int (res_resetAt rateLimit))
                 (assoc_set ''X-RateLimit-Remaining'' (show_int (remaining rateLimit))
                   (assoc_set ''X-RateLimit-Limit'' (show_int maxRequests)
                     (assoc_set ''X-Cache'' ''HIT'' (headers c))))\<rparr>)
            (header_or (req_headers request ''Origin'') []))
         st'"
  | appName apiName appConfig apiConfig rateLimit st' where
    "admitted cfg pf request st appName apiName appConfig apiConfig rateLimit st'"
    "\<not> cache_enabled apiConfig \<or> cache_match pf = None"
    "env (api_secret apiConfig) = None \<or> env (api_secret apiConfig) = Some []"
    "fetch cfg env pf request st =
       finish ConfigurationError
         (jsonResponse (JObj [(''error'', JStr ''Configuration error'')]) 500) st'"
  | appName apiName appConfig apiConfig rateLimit st' secretValue e where
    "admitted cfg pf request st appName apiName appConfig apiConfig rateLimit st'"
    "\<not> cache_enabled apiConfig \<or> cache_match pf = None"
    "env (api_secret apiConfig) = Some secretValue" "secretValue \<noteq> []"
    "build_body apiConfig secretValue (req_json request) = Inl e"
    "fetch cfg env pf request st =
       finish InternalError
         (jsonResponse (JObj
            [(''error'', JStr ''Internal server error''),
             (''message'', JStr (error_message pf))]) 500) st'"
  | appName apiName appConfig apiConfig rateLimit st' secretValue proxyBody proxyRequest where
    "admitted cfg pf request st appName apiName appConfig apiConfig rateLimit st'"
    "\<not> cache_enabled apiConfig \<or> cache_match pf = None"
    "env (api_secret apiConfig) = Some secretValue" "secretValue \<noteq> []"
    "build_body apiConfig secretValue (req_json request) = Inr proxyBody"
    "proxyRequest =
       \<lparr>out_url = build_url apiConfig secretValue (u_searchParams (req_url request)),
        out_method = api_method apiConfig,
        out_headers = [(''Content-Type'', ''application/json''),
                       (''User-Agent'', ''StatEnv-Proxy/1.0'')],
        out_body = proxyBody\<rparr>"
    "upstream pf proxyRequest = AbortError"
    "fetch cfg env pf request st =
       (finish GatewayTimeout
          (jsonResponse (JObj
             [(''error'', JStr ''Gateway Timeout''),
              (''message'', JStr ''External API took too long to respond'')]) 504) st')
       \<lparr>o_upstream := Some proxyRequest\<rparr>"
  | appName apiName appConfig apiConfig rateLimit st' secretValue proxyBody proxyRequest where
    "admitted cfg pf request st appName apiName appConfig apiConfig rateLimit st'"
    "\<not> cache_enabled apiConfig \<or> cache_match pf = None"
    "env (api_secret apiConfig) = Some secretValue" "secretValue \<noteq> []"
    "build_body apiConfig secretValue (req_json request) = Inr proxyBody"
    "proxyRequest =
       \<lparr>out_url = build_url apiConfig secretValue (u_searchParams (req_url request)),
        out_method = api_method apiConfig,
        out_headers = [(''Content-Type'', ''application/json''),
                       (''User-Agent'', ''StatEnv-Proxy/1.0'')],
        out_body = proxyBody\<rparr>"
    "upstream pf proxyRequest = OtherError"
    "fetch cfg env pf request st =
       (finish BadGateway
          (jsonResponse (JObj
             [(''error'', JStr ''Bad Gateway''),
              (''message'', JStr ''Failed to reach external API'')]) 502) st')
       \<lparr>o_upstream := Some proxyRequest\<rparr>"
  | appName apiName appConfig apiConfig rateLimit st' secretValue proxyBody proxyRequest
      apiResponse where
    "admitted cfg pf request st appName apiName appConfig apiConfig rateLimit st'"
    "\<not> cache_enabled apiConfig \<or> cache_match pf = None"
    "env (api_secret apiConfig) = Some secretValue" "secretValue \<noteq> []"
    "build_body apiConfig secretValue (req_json request) = Inr proxyBody"
    "proxyRequest =
       \<lparr>out_url = build_url apiConfig secretValue (u_searchParams (req_url request)),
        out_method = api_method apiConfig,
        out_headers = [(''Content-Type'', ''application/json''),
                       (''User-Agent'', ''StatEnv-Proxy/1.0'')],
        out_body = proxyBody\<rparr>"
    "upstream pf proxyRequest = Responded apiResponse"
    "cache_enabled apiConfig \<and> ar_ok apiResponse \<and> body_read apiConfig request"
    "fetch cfg env pf request st =
       (finish BadGateway
          (jsonResponse (JObj
             [(''error'', JStr ''Bad Gateway''),
              (''message'', JStr ''Failed to reach external API'')]) 502) st')
       \<lparr>o_upstream := Some proxyRequest\<rparr>"
  | appName apiName appConfig apiConfig rateLimit st' secretValue proxyBody proxyRequest
      apiResponse response where
    "admitted cfg pf request st appName apiName appConfig apiConfig rateLimit st'"
    "\<not> cache_enabled apiConfig \<or> cache_match pf = None"
    "env (api_secret apiConfig) = Some secretValue" "secretValue \<noteq> []"
    "build_body apiConfig secretValue (req_json request) = Inr proxyBody"
    "proxyRequest =
       \<lparr>out_url = build_url apiConfig secretValue (u_searchParams (req_url request)),
        out_method = api_method apiConfig,
        out_headers = [(''Content-Type'', ''application/json''),
                       (''User-Agent'', ''StatEnv-Proxy/1.0'')],
        out_body = proxyBody\<rparr>"
    "upstream pf proxyRequest = Responded apiResponse"
    "\<not> (cache_enabled apiConfig \<and> ar_ok apiResponse \<and> body_read apiConfig request)"
    "status response = ar_status apiResponse"
    "body response = TextBody (ar_text apiResponse)"
    "fetch cfg env pf request st =
       \<lparr>o_response =
          addCORSHeaders response (header_or (req_headers request ''Origin'') []),
        o_store = st',
        o_upstream = Some proxyRequest,
        o_cache_put = (if cache_enabled apiConfig \<and> ar_ok apiResponse then Some response
                       else None),
        o_exit = Proxied\<rparr>"
proof (cases rule: fetch_cases [of request cfg env pf st])
  case Preflight
  then show ?thesis using that(1) by blast
next
  case (NoRoute e r)
  from route_Inl_cases [OF NoRoute(2)] obtain data where
    "e \<in> {InvalidRoute, UnknownApp, UnknownApi}" "r = jsonResponse data 404" by blast
  then show ?thesis using that(2) NoRoute by blast
next
  case (Inherited f e r st')
  show ?thesis by (rule that(3) [OF Inherited])
next
  case (Forbidden appName apiName appConfig apiConfig)
  then show ?thesis using that(4) by blast
next
  case (Limited appName apiName appConfig apiConfig rateLimit st')
  then show ?thesis using that(5) by blast
next
  case (Admitted appName apiName appConfig apiConfig rateLimit st')
  let ?origin = "header_or (req_headers request ''Origin'') []"
  have adm: "admitted cfg pf request st appName apiName appConfig apiConfig rateLimit st'"
    using Admitted by (simp add: admitted_def)
  show ?thesis
  proof (cases rule: serve_cases [of apiConfig pf env request appName apiName ?origin
        rateLimit st'])
    case (Hit c)
    show ?thesis
      by (rule that(6) [OF adm Hit(1) Hit(2)]) (simp add: Admitted(6) Hit(3))
  next
    case Miss
    show ?thesis
    proof (cases rule: forward_cases [of env apiConfig pf request appName apiName ?origin
          rateLimit st'])
      case NoSecret
      show ?thesis
        by (rule that(7) [OF adm Miss(1) NoSecret(1)]) (simp add: Admitted(6) Miss(2) NoSecret(2))
    next
      case (Throws secretValue e)
      show ?thesis
        by (rule that(8) [OF adm Miss(1) Throws(1,2,3)])
          (simp add: Admitted(6) Miss(2) Throws(4))
    next
      case (Abort secretValue proxyBody proxyRequest)
      show ?thesis
        by (rule that(9) [OF adm Miss(1) Abort(1,2,3,4,5)])
          (simp add: Admitted(6) Miss(2) Abort(6))
    next
      case (Error secretValue proxyBody proxyRequest)
      show ?thesis
        by (rule that(10) [OF adm Miss(1) Error(1,2,3,4,5)])
          (simp add: Admitted(6) Miss(2) Error(6))
    next
      case (Unstored secretValue proxyBody proxyRequest apiResponse)
      show ?thesis
        by (rule that(11) [OF adm Miss(1) Unstored(1,2,3,4,5,6)])
          (simp add: Admitted(6) Miss(2) Unstored(7))
    next
      case (Responded secretValue proxyBody proxyRequest apiResponse response)
      show ?thesis
        by (rule that(12) [OF adm Miss(1) Responded(1,2,3,4,5,6,7,8)])
          (simp add: Admitted(6) Miss(2) Responded(9))
    qed
  qed
qed


subsection \<open>Inherited names, a body read twice, array-index names\<close>

text \<open>
  \<^verbatim>\<open>/constructor/weather\<close>: the app name is inherited, the worker answers 500 from its outer
  \<^verbatim>\<open>catch\<close> and the rate limiter has not run.
\<close>

lemma inherited_app_name:
  "status (o_response (fetch APP_CONFIG test_env test_platform
      (weather_request\<lparr>req_url :=
         \<lparr>u_origin = ''http://localhost:8787'', u_pathname = ''/constructor/weather'',
          u_searchParams = []\<rparr>\<rparr>) Map.empty)) = 500
   \<and> o_exit (fetch APP_CONFIG test_env test_platform
      (weather_request\<lparr>req_url :=
         \<lparr>u_origin = ''http://localhost:8787'', u_pathname = ''/constructor/weather'',
          u_searchParams = []\<rparr>\<rparr>) Map.empty) = InternalError
   \<and> o_store (fetch APP_CONFIG test_env test_platform
      (weather_request\<lparr>req_url :=
         \<lparr>u_origin = ''http://localhost:8787'', u_pathname = ''/constructor/weather'',
          u_searchParams = []\<rparr>\<rparr>) Map.empty) ''unknown'' = None"
  by (simp add: fetch_def route_def js_lookup_def object_prototype_keys_def pathParts_def
      APP_CONFIG_def weather_request_def finish_def jsonResponse_def)

text \<open>
  \<^verbatim>\<open>/myblog/constructor\<close>: the API name is inherited, the request passes origin validation
  and is counted, and the worker answers 500 for the secret it does not find.
\<close>

lemma inherited_api_name:
  "status (o_response (fetch APP_CONFIG test_env test_platform
      (weather_request\<lparr>req_url :=
         \<lparr>u_origin = ''http://localhost:8787'', u_pathname = ''/myblog/constructor'',
          u_searchParams = []\<rparr>\<rparr>) Map.empty)) = 500
   \<and> o_exit (fetch APP_CONFIG test_env test_platform
      (weather_request\<lparr>req_url :=
         \<lparr>u_origin = ''http://localhost:8787'', u_pathname = ''/myblog/constructor'',
          u_searchParams = []\<rparr>\<rparr>) Map.empty) = ConfigurationError
   \<and> o_store (fetch APP_CONFIG test_env test_platform
      (weather_request\<lparr>req_url :=
         \<lparr>u_origin = ''http://localhost:8787'', u_pathname = ''/myblog/constructor'',
          u_searchParams = []\<rparr>\<rparr>) Map.empty) ''unknown''
       = Some \<lparr>count = 1, resetAt = 61000\<rparr>"
  by (simp add: fetch_def admit_def forward_undefined_def route_def js_lookup_def
      object_prototype_keys_def pathParts_def APP_CONFIG_def myblog_def weather_def
      analytics_def weather_request_def test_env_def test_platform_def isAllowed_def
      header_or_def str_or_def rateLimitKey_def perIP_def checkRateLimit_def finish_def
      jsonResponse_def maxRequests_def windowMs_def Let_def)

text \<open>
  The tracking API with a \<^verbatim>\<open>cache\<close>: the upstream is called and answers 200, the cache key
  cannot be built from the request whose body has been read, and the worker answers 502
  and stores nothing.
\<close>

lemma stored_after_body_read:
  "status (o_response
      (fetch [(''myblog'', myblog\<lparr>apis := [(''analytics'', analytics\<lparr>api_cache := Some 60\<rparr>)]\<rparr>)]
         test_env (answering 200) analytics_request Map.empty)) = 502
   \<and> map_option out_method (o_upstream
      (fetch [(''myblog'', myblog\<lparr>apis := [(''analytics'', analytics\<lparr>api_cache := Some 60\<rparr>)]\<rparr>)]
         test_env (answering 200) analytics_request Map.empty)) = Some ''POST''
   \<and> o_cache_put
      (fetch [(''myblog'', myblog\<lparr>apis := [(''analytics'', analytics\<lparr>api_cache := Some 60\<rparr>)]\<rparr>)]
         test_env (answering 200) analytics_request Map.empty) = None"
  by (simp add: fetch_def admit_def route_def js_lookup_def pathParts_def myblog_def
      weather_def analytics_def analytics_request_def test_env_def test_platform_def
      answering_def isAllowed_def header_or_def str_or_def rateLimitKey_def perIP_def
      checkRateLimit_def serve_def forward_def body_read_def cache_enabled_def ar_ok_def
      build_url_def build_body_def js_order_def is_index_def parse_nat_def digit_val_def
      finish_def jsonResponse_def maxRequests_def windowMs_def Let_def)

text \<open>
  A member \<^verbatim>\<open>__proto__\<close> of the client body is not copied, also when it is listed. Body
  fields named like array indices are written first, by number, whatever the order of
  \<^verbatim>\<open>bodyFields\<close>.
\<close>

lemma proto_not_copied:
  "build_body (analytics\<lparr>api_bodyFields := Some [''__proto__'', ''event'']\<rparr>) ''s''
      (Some (JObj [(''__proto__'', JObj [(''admin'', JBool True)]),
                   (''event'', JStr ''click'')]))
     = Inr (Some (JObj [(''event'', JStr ''click''), (''key'', JStr ''s'')]))"
  by (simp add: build_body_def analytics_def js_order_def is_index_def parse_nat_def
      digit_val_def)

lemma index_names_first:
  "build_body (analytics\<lparr>api_bodyFields := Some [''b'', ''10'', ''2'', ''01'']\<rparr>) ''s''
      (Some (JObj [(''b'', JNum 1), (''10'', JNum 2), (''2'', JNum 3), (''01'', JNum 4)]))
     = Inr (Some (JObj [(''2'', JNum 3), (''10'', JNum 2), (''b'', JNum 1),
                        (''01'', JNum 4), (''key'', JStr ''s'')]))"
  by (simp add: build_body_def analytics_def js_order_def is_index_def index_of_def
      parse_nat_def digit_val_def show_nat.simps digit_def)


subsection \<open>Responses\<close>

lemma str_or_header_or: "str_or (header_or h []) d = header_or h d"
  by (simp add: header_or_def str_or_def split: option.splits)

lemma addCORSHeaders_simps:
  "status (addCORSHeaders r origin) = status r"
  "body (addCORSHeaders r origin) = body r"
  "map_of (headers (addCORSHeaders r origin)) name =
     (if name = ''Access-Control-Allow-Methods'' then Some ''GET, POST, OPTIONS''
      else if name = ''Access-Control-Allow-Origin'' then Some (str_or origin ''*'')
      else map_of (headers r) name)"
  by (simp_all add: addCORSHeaders_def map_of_assoc_set)

lemma jsonResponse_simps:
  "status (jsonResponse data s) = s"
  "body (jsonResponse data s) = JsonBody data"
  "map_of (headers (jsonResponse data s)) ''Access-Control-Allow-Origin'' = Some ''*''"
  by (simp_all add: jsonResponse_def)

lemma tooManyRequests_simps:
  "status (tooManyRequests rateLimit now origin) = 429"
  "map_of (headers (tooManyRequests rateLimit now origin)) ''Access-Control-Allow-Origin''
     = Some (str_or origin ''*'')"
  by (simp_all add: tooManyRequests_def Let_def)

subsection \<open>Preflight\<close>

text \<open>
  C9. A request whose method is \<^verbatim>\<open>OPTIONS\<close> is answered before anything else is looked at:
  whatever the path, the configuration, the origin and the rate-limit store, the response
  is 204 with \<^verbatim>\<open>Access-Control-Allow-Origin\<close> echoing the Origin header (\<^verbatim>\<open>*\<close> when the header
  is absent; an empty header value counts as absent), \<^verbatim>\<open>Access-Control-Allow-Methods\<close>
  \<^verbatim>\<open>GET, POST, OPTIONS\<close>, \<^verbatim>\<open>Access-Control-Allow-Headers\<close> \<^verbatim>\<open>Content-Type\<close> and
  \<^verbatim>\<open>Access-Control-Max-Age\<close>; the rate-limit store is left unchanged, and neither the
  upstream nor the cache is touched.
\<close>

theorem C9_preflight:
  assumes "req_method request = ''OPTIONS''"
  shows "o_response (fetch cfg env pf request st) =
           \<lparr>status = 204,
            headers =
              [(''Access-Control-Allow-Origin'', header_or (req_headers request ''Origin'') ''*''),
               (''Access-Control-Allow-Methods'', ''GET, POST, OPTIONS''),
               (''Access-Control-Allow-Headers'', ''Content-Type''),
               (''Access-Control-Max-Age'', ''86400'')],
            body = NoBody\<rparr>
         \<and> (req_headers request ''Origin'' = None \<longrightarrow>
               header_or (req_headers request ''Origin'') ''*'' = ''*'')
         \<and> (\<forall>v. req_headers request ''Origin'' = Some v \<and> v \<noteq> [] \<longrightarrow>
               header_or (req_headers request ''Origin'') ''*'' = v)
         \<and> o_store (fetch cfg env pf request st) = st
         \<and> o_upstream (fetch cfg env pf request st) = None
         \<and> o_cache_put (fetch cfg env pf request st) = None"
  using assms
  by (simp add: fetch_preflight finish_simps handleCORS_def header_or_def str_or_def)

text \<open>
  A preflight for a path with one part, from an origin that is not whitelisted, while the
  client is at its rate limit: 204, the origin echoed, the store untouched.
\<close>

theorem C9_preflight_witness:
  "o_response (fetch APP_CONFIG test_env test_platform
      (weather_request\<lparr>req_method := ''OPTIONS'',
         req_url := \<lparr>u_origin = ''http://localhost:8787'', u_pathname = ''/nothing'',
                     u_searchParams = []\<rparr>,
         req_headers := [''Origin'' \<mapsto> ''https://evil.com'']\<rparr>)
      [''unknown'' \<mapsto> \<lparr>count = 100, resetAt = 5000\<rparr>]) =
     \<lparr>status = 204,
      headers =
        [(''Access-Control-Allow-Origin'', ''https://evil.com''),
         (''Access-Control-Allow-Methods'', ''GET, POST, OPTIONS''),
         (''Access-Control-Allow-Headers'', ''Content-Type''),
         (''Access-Control-Max-Age'', ''86400'')],
      body = NoBody\<rparr>
   \<and> o_store (fetch APP_CONFIG test_env test_platform
      (weather_request\<lparr>req_method := ''OPTIONS'',
         req_url := \<lparr>u_origin = ''http://localhost:8787'', u_pathname = ''/nothing'',
                     u_searchParams = []\<rparr>,
         req_headers := [''Origin'' \<mapsto> ''https://evil.com'']\<rparr>)
      [''unknown'' \<mapsto> \<lparr>count = 100, resetAt = 5000\<rparr>]) =
     [''unknown'' \<mapsto> \<lparr>count = 100, resetAt = 5000\<rparr>]"
  using C9_preflight [of
      "weather_request\<lparr>req_method := ''OPTIONS'',
         req_url := \<lparr>u_origin = ''http://localhost:8787'', u_pathname = ''/nothing'',
                     u_searchParams = []\<rparr>,
         req_headers := [''Origin'' \<mapsto> ''https://evil.com'']\<rparr>"
      APP_CONFIG test_env test_platform "[''unknown'' \<mapsto> \<lparr>count = 100, resetAt = 5000\<rparr>]"]
  by (simp add: header_or_def str_or_def)


subsection \<open>Error responses\<close>

text \<open>
  C8, as the code has it. Every response carries \<^verbatim>\<open>Access-Control-Allow-Origin\<close>. Of the error
  responses only the 429 echoes the request's Origin header (\<^verbatim>\<open>*\<close> when it is absent or
  empty); every other error response is built by \<^verbatim>\<open>jsonResponse\<close> and carries \<^verbatim>\<open>*\<close>: the
  404s and the 403 before origin validation has passed, and also the 500s, the 502 and the
  504 after it.
\<close>

theorem C8_error_cors:
  "(\<exists>v. map_of (headers (o_response (fetch cfg env pf request st)))
          ''Access-Control-Allow-Origin'' = Some v)
   \<and> (o_exit (fetch cfg env pf request st) \<in> {InvalidRoute, UnknownApp, UnknownApi} \<longrightarrow>
        status (o_response (fetch cfg env pf request st)) = 404
        \<and> map_of (headers (o_response (fetch cfg env pf request st)))
            ''Access-Control-Allow-Origin'' = Some ''*'')
   \<and> (o_exit (fetch cfg env pf request st) = Forbidden \<longrightarrow>
        status (o_response (fetch cfg env pf request st)) = 403
        \<and> map_of (headers (o_response (fetch cfg env pf request st)))
            ''Access-Control-Allow-Origin'' = Some ''*'')
   \<and> (o_exit (fetch cfg env pf request st) = RateLimited \<longrightarrow>
        status (o_response (fetch cfg env pf request st)) = 429
        \<and> map_of (headers (o_response (fetch cfg env pf request st)))
            ''Access-Control-Allow-Origin''
           = Some (header_or (req_headers request ''Origin'') ''*''))
   \<and> (o_exit (fetch cfg env pf request st) \<in> {ConfigurationError, InternalError} \<longrightarrow>
        status (o_response (fetch cfg env pf request st)) = 500
        \<and> map_of (headers (o_response (fetch cfg env pf request st)))
            ''Access-Control-Allow-Origin'' = Some ''*'')
   \<and> (o_exit (fetch cfg env pf request st) = GatewayTimeout \<longrightarrow>
        status (o_response (fetch cfg env pf request st)) = 504
        \<and> map_of (headers (o_response (fetch cfg env pf request st)))
            ''Access-Control-Allow-Origin'' = Some ''*'')
   \<and> (o_exit (fetch cfg env pf request st) = BadGateway \<longrightarrow>
        status (o_response (fetch cfg env pf request st)) = 502
        \<and> map_of (headers (o_response (fetch cfg env pf request st)))
            ''Access-Control-Allow-Origin'' = Some ''*'')"
proof (cases rule: fetch_exits [of request cfg env pf st])
  case Preflight
  then show ?thesis by (simp add: finish_simps handleCORS_def)
next
  case (NoRoute e data)
  then show ?thesis by (auto simp: finish_simps jsonResponse_simps)
next
  case (Inherited f e r st')
  then show ?thesis
    by (auto simp: finish_simps jsonResponse_simps tooManyRequests_simps str_or_header_or)
next
  case (Forbidden appName apiName appConfig apiConfig)
  then show ?thesis by (simp add: finish_simps jsonResponse_simps)
next
  case (Limited appName apiName appConfig apiConfig rateLimit st')
  then show ?thesis by (simp add: finish_simps tooManyRequests_simps str_or_header_or)
next
  case (Hit appName apiName appConfig apiConfig rateLimit st' c)
  then show ?thesis by (simp add: finish_simps addCORSHeaders_simps)
next
  case (NoSecret appName apiName appConfig apiConfig rateLimit st')
  then show ?thesis by (simp add: finish_simps jsonResponse_simps)
next
  case (Throws appName apiName appConfig apiConfig rateLimit st' secretValue e)
  then show ?thesis by (simp add: finish_simps jsonResponse_simps)
next
  case (Abort appName apiName appConfig apiConfig rateLimit st' secretValue proxyBody
      proxyRequest)
  then show ?thesis by (simp add: finish_simps jsonResponse_simps)
next
  case (Error appName apiName appConfig apiConfig rateLimit st' secretValue proxyBody
      proxyRequest)
  then show ?thesis by (simp add: finish_simps jsonResponse_simps)
next
  case (Unstored appName apiName appConfig apiConfig rateLimit st' secretValue proxyBody
      proxyRequest apiResponse)
  then show ?thesis by (simp add: finish_simps jsonResponse_simps)
next
  case (Responded appName apiName appConfig apiConfig rateLimit st' secretValue proxyBody
      proxyRequest apiResponse response)
  then show ?thesis by (simp add: addCORSHeaders_simps)
qed


text \<open>
  The example request, with the upstream out of reach: the request passes origin
  validation, the response is the 502, and its \<^verbatim>\<open>Access-Control-Allow-Origin\<close> is \<^verbatim>\<open>*\<close>, not
  the validated origin. So C8 as stated (post-validation errors echo the validated origin)
  fails.
\<close>

theorem C8_counterexample:
  "req_headers weather_request ''Origin'' = Some ''http://localhost:5500''
   \<and> isAllowed myblog (req_headers weather_request ''Origin'')
        (req_headers weather_request ''Referer'')
   \<and> status (o_response (fetch APP_CONFIG test_env test_platform weather_request Map.empty))
        = 502
   \<and> map_of (headers (o_response
          (fetch APP_CONFIG test_env test_platform weather_request Map.empty)))
        ''Access-Control-Allow-Origin'' = Some ''*''
   \<and> map_of (headers (o_response
          (fetch APP_CONFIG test_env test_platform weather_request Map.empty)))
        ''Access-Control-Allow-Origin'' \<noteq> Some ''http://localhost:5500''"
  by (simp add: fetch_def admit_def route_def js_lookup_def pathParts_def APP_CONFIG_def myblog_def weather_def analytics_def weather_request_def
      test_env_def test_platform_def isAllowed_def header_or_def str_or_def rateLimitKey_def
      perIP_def checkRateLimit_def serve_def forward_def body_read_def cache_enabled_def build_url_def
      build_body_def js_order_def is_index_def parse_nat_def digit_val_def finish_def jsonResponse_def maxRequests_def windowMs_def Let_def)

lemma weather_limited_exit:
  "o_exit (fetch APP_CONFIG test_env test_platform weather_request
      [''unknown'' \<mapsto> \<lparr>count = 100, resetAt = 5000\<rparr>]) = RateLimited"
  by (simp add: fetch_def admit_def route_def js_lookup_def pathParts_def APP_CONFIG_def myblog_def weather_def analytics_def weather_request_def
      test_env_def test_platform_def isAllowed_def header_or_def str_or_def rateLimitKey_def
      perIP_def checkRateLimit_def finish_def maxRequests_def windowMs_def Let_def)

lemma weather_forbidden_exit:
  "o_exit (fetch APP_CONFIG test_env test_platform
      (weather_request\<lparr>req_headers := [''Origin'' \<mapsto> ''https://evil.com'']\<rparr>)
      Map.empty) = Forbidden"
  by (simp add: fetch_def admit_def route_def js_lookup_def pathParts_def APP_CONFIG_def myblog_def weather_def analytics_def weather_request_def
      isAllowed_def header_or_def str_or_def finish_def Let_def)

text \<open>
  The example request while its client is at the limit is answered 429 with the Origin
  header echoed; from an origin that is not whitelisted it is answered 403 with \<^verbatim>\<open>*\<close>.
\<close>

theorem C8_error_cors_witness:
  "status (o_response (fetch APP_CONFIG test_env test_platform weather_request
      [''unknown'' \<mapsto> \<lparr>count = 100, resetAt = 5000\<rparr>])) = 429
   \<and> map_of (headers (o_response (fetch APP_CONFIG test_env test_platform weather_request
      [''unknown'' \<mapsto> \<lparr>count = 100, resetAt = 5000\<rparr>])))
        ''Access-Control-Allow-Origin'' = Some ''http://localhost:5500''
   \<and> status (o_response (fetch APP_CONFIG test_env test_platform
      (weather_request\<lparr>req_headers := [''Origin'' \<mapsto> ''https://evil.com'']\<rparr>)
      Map.empty)) = 403
   \<and> map_of (headers (o_response (fetch APP_CONFIG test_env test_platform
      (weather_request\<lparr>req_headers := [''Origin'' \<mapsto> ''https://evil.com'']\<rparr>)
      Map.empty))) ''Access-Control-Allow-Origin'' = Some ''*''"
  using
    C8_error_cors [of APP_CONFIG test_env test_platform weather_request
      "[''unknown'' \<mapsto> \<lparr>count = 100, resetAt = 5000\<rparr>]"]
    C8_error_cors [of APP_CONFIG test_env test_platform
      "weather_request\<lparr>req_headers := [''Origin'' \<mapsto> ''https://evil.com'']\<rparr>" Map.empty]
    weather_limited_exit weather_forbidden_exit
  by (simp add: weather_request_def header_or_def str_or_def)


subsection \<open>Upstream failures\<close>

lemma fetch_admitted_serve:
  assumes "admitted cfg pf request st appName apiName appConfig apiConfig rateLimit st'"
  shows "fetch cfg env pf request st =
     serve env pf request appName apiName apiConfig
       (header_or (req_headers request ''Origin'') []) rateLimit st'"
  using assms by (simp add: admitted_def fetch_admitted)

lemma fetch_admitted_miss:
  assumes "admitted cfg pf request st appName apiName appConfig apiConfig rateLimit st'"
    and "\<not> cache_enabled apiConfig \<or> cache_match pf = None"
  shows "fetch cfg env pf request st =
     forward env pf request appName apiName apiConfig
       (header_or (req_headers request ''Origin'') []) rateLimit st'"
  using assms by (simp add: fetch_admitted_serve serve_miss)

text \<open>
  C7. For a request that is admitted and not answered from the cache:
  \<^item> if the secret named by the API's configuration is absent from \<^verbatim>\<open>env\<close> (or empty), the
    response is the 500 \<^verbatim>\<open>Configuration error\<close> and the upstream is not called;
  \<^item> otherwise, when the outbound body can be built, the upstream is called; if the call is
    aborted (the 10 second timer) the response is the 504 \<^verbatim>\<open>Gateway Timeout\<close>, and if it
    fails in any other way the response is the 502 \<^verbatim>\<open>Bad Gateway\<close>: two different
    responses.
\<close>

theorem C7_upstream_failures:
  assumes "admitted cfg pf request st appName apiName appConfig apiConfig rateLimit st'"
    and "\<not> cache_enabled apiConfig \<or> cache_match pf = None"
  shows
    "(env (api_secret apiConfig) = None \<or> env (api_secret apiConfig) = Some [] \<longrightarrow>
        o_response (fetch cfg env pf request st) =
          jsonResponse (JObj [(''error'', JStr ''Configuration error'')]) 500
        \<and> status (o_response (fetch cfg env pf request st)) = 500
        \<and> o_upstream (fetch cfg env pf request st) = None)
     \<and> (\<forall>secretValue proxyBody.
          env (api_secret apiConfig) = Some secretValue \<and> secretValue \<noteq> []
          \<and> build_body apiConfig secretValue (req_json request) = Inr proxyBody \<longrightarrow>
          o_upstream (fetch cfg env pf request st) =
            Some \<lparr>out_url = build_url apiConfig secretValue (u_searchParams (req_url request)),
                  out_method = api_method apiConfig,
                  out_headers = [(''Content-Type'', ''application/json''),
                                 (''User-Agent'', ''StatEnv-Proxy/1.0'')],
                  out_body = proxyBody\<rparr>)
     \<and> (\<forall>proxyRequest.
          o_upstream (fetch cfg env pf request st) = Some proxyRequest
          \<and> upstream pf proxyRequest = AbortError \<longrightarrow>
          o_response (fetch cfg env pf request st) =
            jsonResponse (JObj
              [(''error'', JStr ''Gateway Timeout''),
               (''message'', JStr ''External API took too long to respond'')]) 504
          \<and> status (o_response (fetch cfg env pf request st)) = 504)
     \<and> (\<forall>proxyRequest.
          o_upstream (fetch cfg env pf request st) = Some proxyRequest
          \<and> upstream pf proxyRequest = OtherError \<longrightarrow>
          o_response (fetch cfg env pf request st) =
            jsonResponse (JObj
              [(''error'', JStr ''Bad Gateway''),
               (''message'', JStr ''Failed to reach external API'')]) 502
          \<and> status (o_response (fetch cfg env pf request st)) = 502)"
proof -
  let ?origin = "header_or (req_headers request ''Origin'') []"
  have eq: "fetch cfg env pf request st =
      forward env pf request appName apiName apiConfig ?origin rateLimit st'"
    by (rule fetch_admitted_miss [OF assms])
  show ?thesis
  proof (cases rule: forward_cases [of env apiConfig pf request appName apiName ?origin
        rateLimit st'])
    case NoSecret
    then show ?thesis by (auto simp: eq finish_simps jsonResponse_simps)
  next
    case (Throws secretValue e)
    then show ?thesis by (simp add: eq finish_simps)
  next
    case (Abort secretValue proxyBody proxyRequest)
    then show ?thesis by (simp add: eq finish_simps jsonResponse_simps)
  next
    case (Error secretValue proxyBody proxyRequest)
    then show ?thesis by (simp add: eq finish_simps jsonResponse_simps)
  next
    case (Unstored secretValue proxyBody proxyRequest apiResponse)
    then show ?thesis by (simp add: eq finish_simps)
  next
    case (Responded secretValue proxyBody proxyRequest apiResponse response)
    then show ?thesis by (simp add: eq)
  qed
qed

lemma weather_admitted:
  "admitted APP_CONFIG test_platform weather_request Map.empty
     ''myblog'' ''weather'' myblog weather
     \<lparr>allowed = True, remaining = 99, res_resetAt = 61000\<rparr>
     [''unknown'' \<mapsto> \<lparr>count = 1, resetAt = 61000\<rparr>]"
  by (simp add: admitted_def route_def js_lookup_def pathParts_def APP_CONFIG_def myblog_def weather_def analytics_def
      weather_request_def test_platform_def isAllowed_def header_or_def str_or_def
      rateLimitKey_def perIP_def checkRateLimit_def maxRequests_def windowMs_def Let_def)

text \<open>
  The example request, not cached: without the secret it is answered 500 and the upstream
  is not called; with the secret, an aborted call gives 504 and an unreachable upstream
  502.
\<close>

theorem C7_upstream_failures_witness:
  "status (o_response (fetch APP_CONFIG Map.empty test_platform weather_request Map.empty))
      = 500
   \<and> o_upstream (fetch APP_CONFIG Map.empty test_platform weather_request Map.empty) = None
   \<and> status (o_response (fetch APP_CONFIG test_env
        (test_platform\<lparr>upstream := (\<lambda>proxyRequest. AbortError)\<rparr>) weather_request Map.empty))
      = 504
   \<and> status (o_response (fetch APP_CONFIG test_env test_platform weather_request Map.empty))
      = 502"
proof -
  have miss: "\<not> cache_enabled weather \<or> cache_match test_platform = None"
    by (simp add: test_platform_def)
  have adm': "admitted APP_CONFIG (test_platform\<lparr>upstream := (\<lambda>proxyRequest. AbortError)\<rparr>)
     weather_request Map.empty ''myblog'' ''weather'' myblog weather
     \<lparr>allowed = True, remaining = 99, res_resetAt = 61000\<rparr>
     [''unknown'' \<mapsto> \<lparr>count = 1, resetAt = 61000\<rparr>]"
    using weather_admitted by (simp add: admitted_def)
  have miss': "\<not> cache_enabled weather
      \<or> cache_match (test_platform\<lparr>upstream := (\<lambda>proxyRequest. AbortError)\<rparr>) = None"
    by (simp add: test_platform_def)
  have sec: "test_env (api_secret weather) = Some ''test-weather-key''"
    by (simp add: test_env_def myblog_def weather_def analytics_def)
  have body: "build_body weather ''test-weather-key''
      (req_json weather_request) = Inr None"
    by (simp add: build_body_def myblog_def weather_def analytics_def)
  from C7_upstream_failures [OF weather_admitted miss, of Map.empty]
  have a: "status (o_response
        (fetch APP_CONFIG Map.empty test_platform weather_request Map.empty)) = 500
      \<and> o_upstream (fetch APP_CONFIG Map.empty test_platform weather_request Map.empty) = None"
    by (simp add: jsonResponse_simps)
  from C7_upstream_failures [OF adm' miss', of test_env] sec body
  have b: "status (o_response (fetch APP_CONFIG test_env
        (test_platform\<lparr>upstream := (\<lambda>proxyRequest. AbortError)\<rparr>) weather_request Map.empty))
      = 504"
    by (simp add: jsonResponse_simps)
  from C7_upstream_failures [OF weather_admitted miss, of test_env] sec body
  have c: "status (o_response
        (fetch APP_CONFIG test_env test_platform weather_request Map.empty)) = 502"
    by (simp add: test_platform_def jsonResponse_simps)
  from a b c show ?thesis by simp
qed


subsection \<open>Cache writes\<close>

text \<open>
  C5. A response is handed to \<^verbatim>\<open>cache.put\<close> only when the API's \<^verbatim>\<open>cache\<close> is defined and not
  0 (greater than 0 for a configuration that \<^verbatim>\<open>validateConfig\<close> accepts, which has no
  negative value) and the upstream answered with a status in 200-299; what is stored has
  the upstream's status and body. Nothing is stored when caching is disabled for the API
  (\<^verbatim>\<open>cache\<close> undefined or 0), when the upstream's status is outside 200-299, when the
  upstream call fails, and when the upstream is not called at all.
\<close>

theorem C5_cache_write:
  "(\<forall>r. o_cache_put (fetch cfg env pf request st) = Some r \<longrightarrow>
      (\<exists>appName apiName appConfig apiConfig ttl proxyRequest apiResponse.
          route cfg request = Inr (appName, apiName, appConfig, apiConfig)
        \<and> api_cache apiConfig = Some ttl \<and> ttl \<noteq> 0
        \<and> (valid_cache apiConfig \<longrightarrow> 0 < ttl)
        \<and> o_upstream (fetch cfg env pf request st) = Some proxyRequest
        \<and> upstream pf proxyRequest = Responded apiResponse
        \<and> 200 \<le> ar_status apiResponse \<and> ar_status apiResponse \<le> 299
        \<and> status r = ar_status apiResponse \<and> body r = TextBody (ar_text apiResponse)))
   \<and> (\<forall>appName apiName appConfig apiConfig.
        route cfg request = Inr (appName, apiName, appConfig, apiConfig)
        \<and> (api_cache apiConfig = None \<or> api_cache apiConfig = Some 0) \<longrightarrow>
        o_cache_put (fetch cfg env pf request st) = None)
   \<and> (\<forall>proxyRequest apiResponse.
        o_upstream (fetch cfg env pf request st) = Some proxyRequest
        \<and> upstream pf proxyRequest = Responded apiResponse
        \<and> \<not> (200 \<le> ar_status apiResponse \<and> ar_status apiResponse \<le> 299) \<longrightarrow>
        o_cache_put (fetch cfg env pf request st) = None)
   \<and> (\<forall>proxyRequest.
        o_upstream (fetch cfg env pf request st) = Some proxyRequest
        \<and> (upstream pf proxyRequest = AbortError \<or> upstream pf proxyRequest = OtherError) \<longrightarrow>
        o_cache_put (fetch cfg env pf request st) = None)
   \<and> (o_upstream (fetch cfg env pf request st) = None \<longrightarrow>
        o_cache_put (fetch cfg env pf request st) = None)"
proof (cases rule: fetch_exits [of request cfg env pf st])
  case Preflight
  then show ?thesis by (simp add: finish_simps)
next
  case (NoRoute e data)
  then show ?thesis by (simp add: finish_simps)
next
  case (Inherited f e r st')
  then show ?thesis by (simp add: finish_simps)
next
  case (Forbidden appName apiName appConfig apiConfig)
  then show ?thesis by (simp add: finish_simps)
next
  case (Limited appName apiName appConfig apiConfig rateLimit st')
  then show ?thesis by (simp add: finish_simps)
next
  case (Hit appName apiName appConfig apiConfig rateLimit st' c)
  then show ?thesis by (simp add: finish_simps)
next
  case (NoSecret appName apiName appConfig apiConfig rateLimit st')
  then show ?thesis by (simp add: finish_simps)
next
  case (Throws appName apiName appConfig apiConfig rateLimit st' secretValue e)
  then show ?thesis by (simp add: finish_simps)
next
  case (Abort appName apiName appConfig apiConfig rateLimit st' secretValue proxyBody
      proxyRequest)
  then show ?thesis by (simp add: finish_simps)
next
  case (Error appName apiName appConfig apiConfig rateLimit st' secretValue proxyBody
      proxyRequest)
  then show ?thesis by (simp add: finish_simps)
next
  case (Unstored appName apiName appConfig apiConfig rateLimit st' secretValue proxyBody
      proxyRequest apiResponse)
  then show ?thesis by (simp add: finish_simps)
next
  case (Responded appName apiName appConfig apiConfig rateLimit st' secretValue proxyBody
      proxyRequest apiResponse response)
  have rt: "route cfg request = Inr (appName, apiName, appConfig, apiConfig)"
    using Responded(1) by (simp add: admitted_def)
  have ttl: "\<exists>ttl. api_cache apiConfig = Some ttl \<and> ttl \<noteq> 0 \<and> (valid_cache apiConfig \<longrightarrow> 0 < ttl)"
    if "cache_enabled apiConfig"
    using that by (auto simp: cache_enabled_def valid_cache_def split: option.splits)
  have off: "\<not> cache_enabled apiConfig"
    if "api_cache apiConfig = None \<or> api_cache apiConfig = Some 0"
    using that by (auto simp: cache_enabled_def)
  have put: "o_cache_put (fetch cfg env pf request st) =
      (if cache_enabled apiConfig \<and> ar_ok apiResponse then Some response else None)"
    and up: "o_upstream (fetch cfg env pf request st) = Some proxyRequest"
    by (simp_all add: Responded(11))
  have 1: "\<exists>appName apiName appConfig apiConfig ttl proxyRequest apiResponse.
          route cfg request = Inr (appName, apiName, appConfig, apiConfig)
        \<and> api_cache apiConfig = Some ttl \<and> ttl \<noteq> 0
        \<and> (valid_cache apiConfig \<longrightarrow> 0 < ttl)
        \<and> o_upstream (fetch cfg env pf request st) = Some proxyRequest
        \<and> upstream pf proxyRequest = Responded apiResponse
        \<and> 200 \<le> ar_status apiResponse \<and> ar_status apiResponse \<le> 299
        \<and> status r = ar_status apiResponse \<and> body r = TextBody (ar_text apiResponse)"
    if r: "o_cache_put (fetch cfg env pf request st) = Some r" for r
  proof -
    from r put have ce: "cache_enabled apiConfig" and ok: "ar_ok apiResponse"
      and rr: "r = response"
      by (auto split: if_splits)
    from ttl [OF ce] obtain t where
      t: "api_cache apiConfig = Some t" "t \<noteq> 0" "valid_cache apiConfig \<longrightarrow> 0 < t" by blast
    from ok have rng: "200 \<le> ar_status apiResponse" "ar_status apiResponse \<le> 299"
      by (simp_all add: ar_ok_def)
    from rt t up Responded(7) rng rr Responded(9) Responded(10) show ?thesis by blast
  qed
  have 2: "o_cache_put (fetch cfg env pf request st) = None"
    if "route cfg request = Inr (a, b, c, d)"
      and "api_cache d = None \<or> api_cache d = Some 0" for a b c d
    using that rt off put by auto
  have 3: "o_cache_put (fetch cfg env pf request st) = None"
    if "o_upstream (fetch cfg env pf request st) = Some p"
      and "upstream pf p = Responded ar"
      and "\<not> (200 \<le> ar_status ar \<and> ar_status ar \<le> 299)" for p ar
    using that up Responded(7) put by (auto simp: ar_ok_def)
  have 4: "o_cache_put (fetch cfg env pf request st) = None"
    if "o_upstream (fetch cfg env pf request st) = Some p"
      and "upstream pf p = AbortError \<or> upstream pf p = OtherError" for p
    using that up Responded(7) by auto
  from 1 2 3 4 up show ?thesis by (intro conjI allI impI) (blast, blast, blast, blast, simp)
qed


text \<open>
  The example request is stored when the upstream answers 200; it is not stored when the
  upstream answers 500 or cannot be reached; the tracking request, whose API has no
  \<^verbatim>\<open>cache\<close>, is not stored even when the upstream answers 200.
\<close>

theorem C5_cache_write_witness:
  "map_option status
      (o_cache_put (fetch APP_CONFIG test_env (answering 200) weather_request Map.empty))
     = Some 200
   \<and> valid_cache weather
   \<and> o_cache_put (fetch APP_CONFIG test_env (answering 500) weather_request Map.empty) = None
   \<and> o_cache_put (fetch APP_CONFIG test_env test_platform weather_request Map.empty) = None
   \<and> o_cache_put (fetch APP_CONFIG test_env (answering 200) analytics_request Map.empty)
     = None"
proof -
  have ok: "map_option status
      (o_cache_put (fetch APP_CONFIG test_env (answering 200) weather_request Map.empty))
     = Some 200"
    by (simp add: fetch_def admit_def route_def js_lookup_def pathParts_def APP_CONFIG_def myblog_def weather_def analytics_def
        weather_request_def test_env_def test_platform_def answering_def isAllowed_def
        header_or_def str_or_def rateLimitKey_def perIP_def checkRateLimit_def serve_def
        forward_def body_read_def cache_enabled_def build_url_def build_body_def js_order_def is_index_def parse_nat_def digit_val_def ar_ok_def Let_def)
  have valid: "valid_cache weather"
    by (simp add: valid_cache_def myblog_def weather_def analytics_def)
  have up500: "\<exists>p. o_upstream
      (fetch APP_CONFIG test_env (answering 500) weather_request Map.empty) = Some p"
    by (simp add: fetch_def admit_def route_def js_lookup_def pathParts_def APP_CONFIG_def myblog_def weather_def analytics_def
        weather_request_def test_env_def test_platform_def answering_def isAllowed_def
        header_or_def str_or_def rateLimitKey_def perIP_def checkRateLimit_def serve_def
        forward_def body_read_def cache_enabled_def build_url_def build_body_def js_order_def is_index_def parse_nat_def digit_val_def ar_ok_def Let_def)
  have upfail: "\<exists>p. o_upstream
      (fetch APP_CONFIG test_env test_platform weather_request Map.empty) = Some p"
    by (simp add: fetch_def admit_def route_def js_lookup_def pathParts_def APP_CONFIG_def myblog_def weather_def analytics_def
        weather_request_def test_env_def test_platform_def isAllowed_def
        header_or_def str_or_def rateLimitKey_def perIP_def checkRateLimit_def serve_def
        forward_def body_read_def cache_enabled_def build_url_def build_body_def js_order_def is_index_def parse_nat_def digit_val_def finish_def Let_def)
  have rt: "route APP_CONFIG analytics_request =
      Inr (''myblog'', ''analytics'', myblog, analytics)"
    by (simp add: route_def js_lookup_def pathParts_def APP_CONFIG_def myblog_def weather_def analytics_def analytics_request_def Let_def)
  have nocache: "api_cache analytics = None"
    by (simp add: myblog_def weather_def analytics_def)
  have a: "o_cache_put (fetch APP_CONFIG test_env (answering 500) weather_request Map.empty)
      = None"
    using C5_cache_write [of APP_CONFIG test_env "answering 500" weather_request Map.empty]
      up500
    by (auto simp: answering_def)
  have b: "o_cache_put (fetch APP_CONFIG test_env test_platform weather_request Map.empty)
      = None"
    using C5_cache_write [of APP_CONFIG test_env test_platform weather_request Map.empty]
      upfail
    by (auto simp: test_platform_def)
  have c: "o_cache_put (fetch APP_CONFIG test_env (answering 200) analytics_request Map.empty)
      = None"
    using C5_cache_write [of APP_CONFIG test_env "answering 200" analytics_request Map.empty]
      rt nocache
    by blast
  from ok valid a b c show ?thesis by simp
qed

subsection \<open>Cache hits\<close>







subsection \<open>The outbound request\<close>

lemma build_url_frame:
  "u_origin (build_url a s cq) = u_origin (api_url a)"
  "u_pathname (build_url a s cq) = u_pathname (api_url a)"
  by (simp_all add: build_url_def Let_def split: option.splits)

lemma build_url_get:
  assumes "api_method a = ''GET''" and "api_params a = Some ps"
  shows "u_searchParams (build_url a s cq) =
           copy_params ps cq (sp_set ''key'' s (u_searchParams (api_url a)))"
  using assms by (simp add: build_url_def Let_def)

lemma build_url_other:
  assumes "\<not> (api_method a = ''GET'' \<and> api_params a \<noteq> None)"
  shows "build_url a s cq = api_url a"
  using assms by (auto simp: build_url_def Let_def split: option.splits)

lemma build_url_get_only:
  assumes "api_method a = ''GET''" and "api_params a = Some ps"
  shows "set (u_searchParams (build_url a s cq)) \<subseteq>
           set (u_searchParams (api_url a)) \<union> {(''key'', s)}
           \<union> {(p, v). p \<in> set ps \<and> map_of cq p = Some v \<and> v \<noteq> []}"
proof -
  have "set (u_searchParams (build_url a s cq)) \<subseteq>
      set (sp_set ''key'' s (u_searchParams (api_url a)))
      \<union> {(p, v). p \<in> set ps \<and> map_of cq p = Some v \<and> v \<noteq> []}"
    unfolding build_url_get [OF assms] by (rule set_copy_params)
  moreover have "set (sp_set ''key'' s (u_searchParams (api_url a))) \<subseteq>
      set (u_searchParams (api_url a)) \<union> {(''key'', s)}"
    using set_sp_set [of "''key''" s "u_searchParams (api_url a)"] by auto
  ultimately show ?thesis by blast
qed

lemma build_url_get_key:
  assumes "api_method a = ''GET''" and "api_params a = Some ps" and "''key'' \<notin> set ps"
  shows "map_of (u_searchParams (build_url a s cq)) ''key'' = Some s"
  using assms(3) by (simp add: build_url_get [OF assms(1,2)] map_of_copy_params map_of_sp_set)

lemma build_url_get_copied:
  assumes "api_method a = ''GET''" and "api_params a = Some ps"
    and "p \<in> set ps" and "map_of cq p = Some v" and "v \<noteq> []"
  shows "map_of (u_searchParams (build_url a s cq)) p = Some v"
  using assms(3-5) by (simp add: build_url_get [OF assms(1,2)] map_of_copy_params)

lemma copy_fields_empty: "copy_fields fs (JObj []) ab = Inr ab"
  by (induction fs arbitrary: ab) simp_all

lemma copy_fields_Inr:
  assumes "copy_fields fs cb ab = Inr ab'" and "map_of ab' f = Some v"
  shows "map_of ab f = Some v
         \<or> (f \<in> set fs \<and> (\<exists>props. own_props cb = Some props \<and> map_of props f = Some v))"
  using assms
proof (induction fs arbitrary: ab)
  case Nil
  then show ?case by simp
next
  case (Cons g fs)
  from Cons.prems(1) obtain props where props: "own_props cb = Some props"
    by (cases "own_props cb") simp_all
  let ?ab = "case map_of props g of None \<Rightarrow> ab
             | Some w \<Rightarrow> if g = ''__proto__'' then ab else assoc_set g w ab"
  from Cons.prems(1) props have r: "copy_fields fs cb ?ab = Inr ab'" by simp
  from Cons.IH [OF r Cons.prems(2)] show ?case
  proof
    assume m: "map_of ?ab f = Some v"
    show ?thesis
    proof (cases "map_of props g")
      case None
      with m show ?thesis by simp
    next
      case (Some w)
      show ?thesis
      proof (cases "g = ''__proto__''")
        case True
        with Some m show ?thesis by simp
      next
        case False
        with Some m have "((map_of ab)(g \<mapsto> w)) f = Some v"
          by (simp add: map_of_assoc_set)
        then show ?thesis using Some props by (cases "f = g") auto
      qed
    qed
  next
    assume "f \<in> set fs \<and> (\<exists>props. own_props cb = Some props \<and> map_of props f = Some v)"
    then show ?thesis by auto
  qed
qed

lemma build_body_other:
  assumes "\<not> (api_method a = ''POST'' \<and> api_bodyFields a \<noteq> None)"
  shows "build_body a s parsed = Inr None"
  using assms by (auto simp: build_body_def split: option.splits)

lemma build_body_unparseable:
  assumes "api_method a = ''POST''" and "api_bodyFields a = Some fs"
  shows "build_body a s None = Inr (Some (JObj [(''key'', JStr s)]))"
  using assms by (simp add: build_body_def copy_fields_empty js_order_key)

lemma build_body_post:
  assumes "api_method a = ''POST''" and "api_bodyFields a = Some fs"
    and "build_body a s parsed = Inr b"
  shows "\<exists>allowedBody. b = Some (JObj allowedBody)
           \<and> map_of allowedBody ''key'' = Some (JStr s)
           \<and> (\<forall>f v. f \<noteq> ''key'' \<and> map_of allowedBody f = Some v \<longrightarrow>
                 f \<in> set fs
                 \<and> (\<exists>clientBody props. parsed = Some clientBody
                       \<and> own_props clientBody = Some props \<and> map_of props f = Some v))
           \<and> (parsed = None \<longrightarrow> allowedBody = [(''key'', JStr s)])"
proof -
  let ?cb = "case parsed of None \<Rightarrow> JObj [] | Some v \<Rightarrow> v"
  from assms obtain ab where
    cf: "copy_fields fs ?cb [] = Inr ab" and
    b: "b = Some (JObj (js_order (assoc_set ''key'' (JStr s) ab)))"
    by (auto simp: build_body_def Let_def split: sum.splits)
  let ?out = "js_order (assoc_set ''key'' (JStr s) ab)"
  have "distinct (map fst ab)"
    by (rule copy_fields_distinct [OF _ cf]) simp
  then have "distinct (map fst (assoc_set ''key'' (JStr s) ab))"
    by (rule distinct_assoc_set)
  then have out: "map_of ?out = (map_of ab)(''key'' \<mapsto> JStr s)"
    by (simp add: map_of_js_order map_of_assoc_set)
  have key: "map_of ?out ''key'' = Some (JStr s)" by (simp add: out)
  have only: "f \<in> set fs
      \<and> (\<exists>clientBody props. parsed = Some clientBody
            \<and> own_props clientBody = Some props \<and> map_of props f = Some v)"
    if "f \<noteq> ''key''" and "map_of ?out f = Some v" for f v
  proof -
    from that have m: "map_of ab f = Some v" by (simp add: out)
    from copy_fields_Inr [OF cf m] obtain props where
      f: "f \<in> set fs" and p: "own_props ?cb = Some props" and v: "map_of props f = Some v"
      by auto
    show ?thesis
    proof (cases parsed)
      case None
      with p v show ?thesis by simp
    next
      case (Some clientBody)
      with f p v show ?thesis by simp
    qed
  qed
  have unp: "?out = [(''key'', JStr s)]" if "parsed = None"
    using cf that by (auto simp: copy_fields_empty js_order_key)
  from b key only unp show ?thesis by blast
qed


text \<open>Whenever the upstream is called, this is the request it is called with.\<close>

lemma fetch_upstream_shape:
  assumes "o_upstream (fetch cfg env pf request st) = Some proxyRequest"
  shows "\<exists>appName apiName appConfig apiConfig secretValue.
          route cfg request = Inr (appName, apiName, appConfig, apiConfig)
        \<and> env (api_secret apiConfig) = Some secretValue
        \<and> out_url proxyRequest
            = build_url apiConfig secretValue (u_searchParams (req_url request))
        \<and> build_body apiConfig secretValue (req_json request) = Inr (out_body proxyRequest)
        \<and> out_method proxyRequest = api_method apiConfig
        \<and> out_headers proxyRequest = [(''Content-Type'', ''application/json''),
                                      (''User-Agent'', ''StatEnv-Proxy/1.0'')]"
proof (cases rule: fetch_exits [of request cfg env pf st])
  case Preflight
  with assms show ?thesis by (simp add: finish_simps)
next
  case (NoRoute e data)
  with assms show ?thesis by (simp add: finish_simps)
next
  case (Inherited f e r st')
  with assms show ?thesis by (simp add: finish_simps)
next
  case (Forbidden appName apiName appConfig apiConfig)
  with assms show ?thesis by (simp add: finish_simps)
next
  case (Limited appName apiName appConfig apiConfig rateLimit st')
  with assms show ?thesis by (simp add: finish_simps)
next
  case (Hit appName apiName appConfig apiConfig rateLimit st' c)
  with assms show ?thesis by (simp add: finish_simps)
next
  case (NoSecret appName apiName appConfig apiConfig rateLimit st')
  with assms show ?thesis by (simp add: finish_simps)
next
  case (Throws appName apiName appConfig apiConfig rateLimit st' secretValue e)
  with assms show ?thesis by (simp add: finish_simps)
next
  case (Abort appName apiName appConfig apiConfig rateLimit st' secretValue proxyBody p)
  from assms Abort(8) have "proxyRequest = p" by simp
  moreover have "route cfg request = Inr (appName, apiName, appConfig, apiConfig)"
    using Abort(1) by (simp add: admitted_def)
  ultimately show ?thesis using Abort(3,5,6) by simp
next
  case (Error appName apiName appConfig apiConfig rateLimit st' secretValue proxyBody p)
  from assms Error(8) have "proxyRequest = p" by simp
  moreover have "route cfg request = Inr (appName, apiName, appConfig, apiConfig)"
    using Error(1) by (simp add: admitted_def)
  ultimately show ?thesis using Error(3,5,6) by simp
next
  case (Unstored appName apiName appConfig apiConfig rateLimit st' secretValue proxyBody p
      apiResponse)
  from assms Unstored(9) have "proxyRequest = p" by simp
  moreover have "route cfg request = Inr (appName, apiName, appConfig, apiConfig)"
    using Unstored(1) by (simp add: admitted_def)
  ultimately show ?thesis using Unstored(3,5,6) by simp
next
  case (Responded appName apiName appConfig apiConfig rateLimit st' secretValue proxyBody p
      apiResponse response)
  from assms Responded(11) have "proxyRequest = p" by simp
  moreover have "route cfg request = Inr (appName, apiName, appConfig, apiConfig)"
    using Responded(1) by (simp add: admitted_def)
  ultimately show ?thesis using Responded(3,5,6) by simp
qed

text \<open>
  C2, as the code has it. Whenever the upstream is called, the outbound request has the
  configured method, origin and path and the two fixed headers, and
  \<^item> for a GET API whose configuration has a \<^verbatim>\<open>params\<close> list: every pair of the outbound
    query is a pair of the configured URL's own query, or \<^verbatim>\<open>key\<close> with the secret, or a
    parameter named in \<^verbatim>\<open>params\<close> with the non-empty value the client gave it; \<^verbatim>\<open>key\<close> is the
    secret whenever \<^verbatim>\<open>key\<close> is not itself listed in \<^verbatim>\<open>params\<close>; each other listed parameter
    that the client gave a non-empty value is forwarded with that value; no body is sent;
  \<^item> otherwise (no \<^verbatim>\<open>params\<close>, or another method) the outbound URL is the configured URL:
    neither client data nor the secret is added to it;
  \<^item> for a POST API whose configuration has a \<^verbatim>\<open>bodyFields\<close> list: the outbound body is a
    JSON object whose \<^verbatim>\<open>key\<close> is the secret and whose every other field is named in
    \<^verbatim>\<open>bodyFields\<close> and is a field of the client's JSON body, with the client's value; when
    the client's body does not parse, the outbound body is the secret alone;
  \<^item> otherwise (no \<^verbatim>\<open>bodyFields\<close>, or another method) no body is sent.
  And for a POST API with \<^verbatim>\<open>bodyFields\<close>, a client body that does not parse never makes the
  body construction fail.
\<close>

theorem C2_outbound_whitelist:
  "(\<forall>proxyRequest. o_upstream (fetch cfg env pf request st) = Some proxyRequest \<longrightarrow>
      (\<exists>appName apiName appConfig apiConfig secretValue.
          route cfg request = Inr (appName, apiName, appConfig, apiConfig)
        \<and> env (api_secret apiConfig) = Some secretValue
        \<and> out_method proxyRequest = api_method apiConfig
        \<and> out_headers proxyRequest = [(''Content-Type'', ''application/json''),
                                      (''User-Agent'', ''StatEnv-Proxy/1.0'')]
        \<and> u_origin (out_url proxyRequest) = u_origin (api_url apiConfig)
        \<and> u_pathname (out_url proxyRequest) = u_pathname (api_url apiConfig)
        \<and> (\<forall>params. api_method apiConfig = ''GET'' \<and> api_params apiConfig = Some params \<longrightarrow>
              set (u_searchParams (out_url proxyRequest)) \<subseteq>
                set (u_searchParams (api_url apiConfig)) \<union> {(''key'', secretValue)}
                \<union> {(p, v). p \<in> set params
                      \<and> map_of (u_searchParams (req_url request)) p = Some v \<and> v \<noteq> []}
              \<and> (''key'' \<notin> set params \<longrightarrow>
                   map_of (u_searchParams (out_url proxyRequest)) ''key'' = Some secretValue)
              \<and> (\<forall>p v. p \<in> set params \<and> p \<noteq> ''key''
                     \<and> map_of (u_searchParams (req_url request)) p = Some v \<and> v \<noteq> [] \<longrightarrow>
                     map_of (u_searchParams (out_url proxyRequest)) p = Some v)
              \<and> out_body proxyRequest = None)
        \<and> (\<not> (api_method apiConfig = ''GET'' \<and> api_params apiConfig \<noteq> None) \<longrightarrow>
              out_url proxyRequest = api_url apiConfig)
        \<and> (\<forall>bodyFields.
              api_method apiConfig = ''POST'' \<and> api_bodyFields apiConfig = Some bodyFields \<longrightarrow>
              (\<exists>allowedBody. out_body proxyRequest = Some (JObj allowedBody)
                 \<and> map_of allowedBody ''key'' = Some (JStr secretValue)
                 \<and> (\<forall>f v. f \<noteq> ''key'' \<and> map_of allowedBody f = Some v \<longrightarrow>
                       f \<in> set bodyFields
                       \<and> (\<exists>clientBody props. req_json request = Some clientBody
                             \<and> own_props clientBody = Some props \<and> map_of props f = Some v))
                 \<and> (req_json request = None \<longrightarrow>
                       allowedBody = [(''key'', JStr secretValue)])))
        \<and> (\<not> (api_method apiConfig = ''POST'' \<and> api_bodyFields apiConfig \<noteq> None) \<longrightarrow>
              out_body proxyRequest = None)))
   \<and> (\<forall>apiConfig secretValue bodyFields.
        api_method apiConfig = ''POST'' \<and> api_bodyFields apiConfig = Some bodyFields \<longrightarrow>
        build_body apiConfig secretValue None = Inr (Some (JObj [(''key'', JStr secretValue)])))"
  (is "(\<forall>proxyRequest. ?U proxyRequest \<longrightarrow> ?W proxyRequest) \<and> ?N")
proof -
  have w: "?W proxyRequest" if u: "?U proxyRequest" for proxyRequest
  proof -
    from fetch_upstream_shape [OF u] obtain appName apiName appConfig apiConfig secretValue
      where rt: "route cfg request = Inr (appName, apiName, appConfig, apiConfig)"
        and sec: "env (api_secret apiConfig) = Some secretValue"
        and url: "out_url proxyRequest
            = build_url apiConfig secretValue (u_searchParams (req_url request))"
        and bdy: "build_body apiConfig secretValue (req_json request)
            = Inr (out_body proxyRequest)"
        and meth: "out_method proxyRequest = api_method apiConfig"
        and hdrs: "out_headers proxyRequest = [(''Content-Type'', ''application/json''),
                                      (''User-Agent'', ''StatEnv-Proxy/1.0'')]"
      by blast
    let ?cq = "u_searchParams (req_url request)"
    have org: "u_origin (out_url proxyRequest) = u_origin (api_url apiConfig)"
      and path: "u_pathname (out_url proxyRequest) = u_pathname (api_url apiConfig)"
      by (simp_all add: url build_url_frame)
    have nopost: "\<not> (api_method apiConfig = ''POST'' \<and> api_bodyFields apiConfig \<noteq> None) \<longrightarrow>
        out_body proxyRequest = None"
      using bdy build_body_other [of apiConfig secretValue "req_json request"] by auto
    have get: "\<forall>params. api_method apiConfig = ''GET'' \<and> api_params apiConfig = Some params \<longrightarrow>
        set (u_searchParams (out_url proxyRequest)) \<subseteq>
          set (u_searchParams (api_url apiConfig)) \<union> {(''key'', secretValue)}
          \<union> {(p, v). p \<in> set params \<and> map_of ?cq p = Some v \<and> v \<noteq> []}
        \<and> (''key'' \<notin> set params \<longrightarrow>
             map_of (u_searchParams (out_url proxyRequest)) ''key'' = Some secretValue)
        \<and> (\<forall>p v. p \<in> set params \<and> p \<noteq> ''key'' \<and> map_of ?cq p = Some v \<and> v \<noteq> [] \<longrightarrow>
               map_of (u_searchParams (out_url proxyRequest)) p = Some v)
        \<and> out_body proxyRequest = None"
    proof (intro allI impI)
      fix params
      assume "api_method apiConfig = ''GET'' \<and> api_params apiConfig = Some params"
      then have g: "api_method apiConfig = ''GET''" and ps: "api_params apiConfig = Some params"
        by simp_all
      have a: "set (u_searchParams (out_url proxyRequest)) \<subseteq>
          set (u_searchParams (api_url apiConfig)) \<union> {(''key'', secretValue)}
          \<union> {(p, v). p \<in> set params \<and> map_of ?cq p = Some v \<and> v \<noteq> []}"
        unfolding url by (rule build_url_get_only [OF g ps])
      have b: "''key'' \<notin> set params \<longrightarrow>
          map_of (u_searchParams (out_url proxyRequest)) ''key'' = Some secretValue"
        unfolding url using build_url_get_key [OF g ps] by blast
      have c: "\<forall>p v. p \<in> set params \<and> p \<noteq> ''key'' \<and> map_of ?cq p = Some v \<and> v \<noteq> [] \<longrightarrow>
          map_of (u_searchParams (out_url proxyRequest)) p = Some v"
        unfolding url using build_url_get_copied [OF g ps] by blast
      have d: "out_body proxyRequest = None"
        using nopost g by simp
      from a b c d show "set (u_searchParams (out_url proxyRequest)) \<subseteq>
          set (u_searchParams (api_url apiConfig)) \<union> {(''key'', secretValue)}
          \<union> {(p, v). p \<in> set params \<and> map_of ?cq p = Some v \<and> v \<noteq> []}
        \<and> (''key'' \<notin> set params \<longrightarrow>
             map_of (u_searchParams (out_url proxyRequest)) ''key'' = Some secretValue)
        \<and> (\<forall>p v. p \<in> set params \<and> p \<noteq> ''key'' \<and> map_of ?cq p = Some v \<and> v \<noteq> [] \<longrightarrow>
               map_of (u_searchParams (out_url proxyRequest)) p = Some v)
        \<and> out_body proxyRequest = None"
        by (intro conjI)
    qed
    have noget: "\<not> (api_method apiConfig = ''GET'' \<and> api_params apiConfig \<noteq> None) \<longrightarrow>
        out_url proxyRequest = api_url apiConfig"
      using url build_url_other [of apiConfig secretValue ?cq] by auto
    have post: "\<forall>bodyFields.
        api_method apiConfig = ''POST'' \<and> api_bodyFields apiConfig = Some bodyFields \<longrightarrow>
        (\<exists>allowedBody. out_body proxyRequest = Some (JObj allowedBody)
           \<and> map_of allowedBody ''key'' = Some (JStr secretValue)
           \<and> (\<forall>f v. f \<noteq> ''key'' \<and> map_of allowedBody f = Some v \<longrightarrow>
                 f \<in> set bodyFields
                 \<and> (\<exists>clientBody props. req_json request = Some clientBody
                       \<and> own_props clientBody = Some props \<and> map_of props f = Some v))
           \<and> (req_json request = None \<longrightarrow> allowedBody = [(''key'', JStr secretValue)]))"
    proof (intro allI impI)
      fix bodyFields
      assume "api_method apiConfig = ''POST'' \<and> api_bodyFields apiConfig = Some bodyFields"
      then have p: "api_method apiConfig = ''POST''"
        and fs: "api_bodyFields apiConfig = Some bodyFields"
        by simp_all
      show "\<exists>allowedBody. out_body proxyRequest = Some (JObj allowedBody)
           \<and> map_of allowedBody ''key'' = Some (JStr secretValue)
           \<and> (\<forall>f v. f \<noteq> ''key'' \<and> map_of allowedBody f = Some v \<longrightarrow>
                 f \<in> set bodyFields
                 \<and> (\<exists>clientBody props. req_json request = Some clientBody
                       \<and> own_props clientBody = Some props \<and> map_of props f = Some v))
           \<and> (req_json request = None \<longrightarrow> allowedBody = [(''key'', JStr secretValue)])"
        by (rule build_body_post [OF p fs bdy])
    qed
    show ?thesis
      apply (intro exI conjI)
               apply (rule rt)
              apply (rule sec)
             apply (rule meth)
            apply (rule hdrs)
           apply (rule org)
          apply (rule path)
         apply (rule get)
        apply (rule noget)
       apply (rule post)
      apply (rule nopost)
      done
  qed
  have n: ?N
    by (intro allI impI) (simp add: build_body_unparseable)
  from w have first: "\<forall>proxyRequest. ?U proxyRequest \<longrightarrow> ?W proxyRequest"
    by (intro allI impI)
  show ?thesis by (rule conjI [OF first n])
qed


text \<open>
  Where C2 as stated fails. (a) The weather API configured without \<^verbatim>\<open>params\<close> (the
  configuration tool leaves \<^verbatim>\<open>params\<close> out when the list is empty): the upstream is called
  with the configured URL and no \<^verbatim>\<open>key\<close> at all. (b) The weather API configured with
  \<^verbatim>\<open>key\<close> among its \<^verbatim>\<open>params\<close>: the client's \<^verbatim>\<open>key\<close> replaces the secret in the outbound
  query. (c) The tracking API configured without \<^verbatim>\<open>bodyFields\<close>: no body is sent, so no
  secret.
\<close>

theorem C2_counterexample:
  "map_option out_url (o_upstream
      (fetch [(''myblog'', myblog\<lparr>apis := [(''weather'', weather\<lparr>api_params := None\<rparr>)]\<rparr>)]
         test_env test_platform weather_request Map.empty))
     = Some \<lparr>u_origin = ''https://api.weatherapi.com'', u_pathname = ''/v1/current.json'',
             u_searchParams = []\<rparr>
   \<and> map_option out_url (o_upstream
      (fetch [(''myblog'',
               myblog\<lparr>apis := [(''weather'', weather\<lparr>api_params := Some [''key'', ''q'']\<rparr>)]\<rparr>)]
         test_env test_platform
         (weather_request\<lparr>req_url :=
            \<lparr>u_origin = ''http://localhost:8787'', u_pathname = ''/myblog/weather'',
             u_searchParams = [(''key'', ''client-key''), (''q'', ''London'')]\<rparr>\<rparr>)
         Map.empty))
     = Some \<lparr>u_origin = ''https://api.weatherapi.com'', u_pathname = ''/v1/current.json'',
             u_searchParams = [(''key'', ''client-key''), (''q'', ''London'')]\<rparr>
   \<and> test_env (api_secret weather) = Some ''test-weather-key''
   \<and> map_option out_body (o_upstream
      (fetch [(''myblog'',
               myblog\<lparr>apis := [(''analytics'', analytics\<lparr>api_bodyFields := None\<rparr>)]\<rparr>)]
         test_env test_platform analytics_request Map.empty))
     = Some None"
  by (simp add: fetch_def admit_def route_def js_lookup_def pathParts_def myblog_def weather_def analytics_def
      weather_request_def analytics_request_def test_env_def test_platform_def isAllowed_def
      header_or_def str_or_def rateLimitKey_def perIP_def checkRateLimit_def serve_def
      forward_def body_read_def cache_enabled_def build_url_def build_body_def js_order_def is_index_def parse_nat_def digit_val_def finish_def Let_def)

text \<open>
  With the source's configuration: of the query \<^verbatim>\<open>q=London&evil=1\<close> only \<^verbatim>\<open>q\<close> goes out, after
  the secret; of the body \<^verbatim>\<open>{event, admin}\<close> only \<^verbatim>\<open>event\<close> goes out, and the secret; a body
  that does not parse gives the secret alone.
\<close>

theorem C2_outbound_whitelist_witness:
  "map_option out_url (o_upstream
      (fetch APP_CONFIG test_env test_platform
         (weather_request\<lparr>req_url :=
            \<lparr>u_origin = ''http://localhost:8787'', u_pathname = ''/myblog/weather'',
             u_searchParams = [(''q'', ''London''), (''evil'', ''1'')]\<rparr>\<rparr>)
         Map.empty))
     = Some \<lparr>u_origin = ''https://api.weatherapi.com'', u_pathname = ''/v1/current.json'',
             u_searchParams = [(''key'', ''test-weather-key''), (''q'', ''London'')]\<rparr>
   \<and> map_option out_body (o_upstream
      (fetch APP_CONFIG test_env test_platform analytics_request Map.empty))
     = Some (Some (JObj [(''event'', JStr ''click''), (''key'', JStr ''test-analytics-key'')]))
   \<and> build_body analytics ''test-analytics-key'' None
     = Inr (Some (JObj [(''key'', JStr ''test-analytics-key'')]))"
proof -
  have a: "map_option out_url (o_upstream
      (fetch APP_CONFIG test_env test_platform
         (weather_request\<lparr>req_url :=
            \<lparr>u_origin = ''http://localhost:8787'', u_pathname = ''/myblog/weather'',
             u_searchParams = [(''q'', ''London''), (''evil'', ''1'')]\<rparr>\<rparr>)
         Map.empty))
     = Some \<lparr>u_origin = ''https://api.weatherapi.com'', u_pathname = ''/v1/current.json'',
             u_searchParams = [(''key'', ''test-weather-key''), (''q'', ''London'')]\<rparr>"
    by (simp add: fetch_def admit_def route_def js_lookup_def pathParts_def APP_CONFIG_def myblog_def weather_def
        analytics_def weather_request_def test_env_def test_platform_def isAllowed_def
        header_or_def str_or_def rateLimitKey_def perIP_def checkRateLimit_def serve_def
        forward_def body_read_def cache_enabled_def build_url_def build_body_def js_order_def is_index_def parse_nat_def digit_val_def finish_def Let_def)
  have b: "map_option out_body (o_upstream
      (fetch APP_CONFIG test_env test_platform analytics_request Map.empty))
     = Some (Some (JObj [(''event'', JStr ''click''), (''key'', JStr ''test-analytics-key'')]))"
    by (simp add: fetch_def admit_def route_def js_lookup_def pathParts_def APP_CONFIG_def myblog_def weather_def
        analytics_def analytics_request_def test_env_def test_platform_def isAllowed_def
        header_or_def str_or_def rateLimitKey_def perIP_def checkRateLimit_def serve_def
        forward_def body_read_def cache_enabled_def build_url_def build_body_def js_order_def is_index_def parse_nat_def digit_val_def finish_def Let_def)
  have post: "api_method analytics = ''POST''
      \<and> api_bodyFields analytics = Some [''event'', ''data'']"
    by (simp add: analytics_def)
  have "\<forall>apiConfig secretValue bodyFields.
        api_method apiConfig = ''POST'' \<and> api_bodyFields apiConfig = Some bodyFields \<longrightarrow>
        build_body apiConfig secretValue None = Inr (Some (JObj [(''key'', JStr secretValue)]))"
    by (rule conjunct2
        [OF C2_outbound_whitelist
          [of APP_CONFIG test_env test_platform analytics_request Map.empty]])
  with post have c: "build_body analytics ''test-analytics-key'' None
     = Inr (Some (JObj [(''key'', JStr ''test-analytics-key'')]))"
    by blast
  from a b c show ?thesis by (intro conjI)
qed


subsection \<open>The client's key never reaches the upstream\<close>














end
